theory Spec2Isabelle
  imports Main
begin

section \<open>JavaScript values\<close>

text \<open>
  Tool-call arguments are typed \<open>unknown\<close> / \<open>any\<close> in the source: they are whatever
  the model endpoint decoded from JSON. \<open>JUndefined\<close> is the value of a missing
  property. Numbers only matter to the code through their truthiness, so they are kept as
  integers.
\<close>

datatype json =
    JUndefined
  | JNull
  | JBool bool
  | JNumber int
  | JString string
  | JArray "json list"
  | JObject "(string \<times> json) list"

text \<open>\<open>Boolean(v)\<close>, the test behind \<open>!v\<close>, \<open>if (v)\<close> and \<open>filter(Boolean)\<close>.\<close>

fun truthy :: "json \<Rightarrow> bool" where
  "truthy JUndefined = False"
| "truthy JNull = False"
| "truthy (JBool b) = b"
| "truthy (JNumber n) = (n \<noteq> 0)"
| "truthy (JString s) = (s \<noteq> [])"
| "truthy (JArray xs) = True"
| "truthy (JObject kvs) = True"

text \<open>
  An error object: what \<open>throw new Error(msg)\<close> raises, and the \<open>TypeError\<close> the
  runtime raises when a property of \<open>undefined\<close> or \<open>null\<close> is read. The source reads
  a caught value only through \<open>(error as Error).message\<close>.
\<close>

datatype js_error = JsError string | JsTypeError string

fun error_message :: "js_error \<Rightarrow> string" where
  "error_message (JsError m) = m"
| "error_message (JsTypeError m) = m"

text \<open>
  \<open>v.tools\<close>, \<open>v.type\<close>: reading a property that is not built in. On \<open>undefined\<close>
  and \<open>null\<close> this throws; on an object it is the stored value or \<open>undefined\<close>; every
  other value has no such property.
\<close>

definition cannot_read :: "string \<Rightarrow> string \<Rightarrow> js_error" where
  "cannot_read v k =
     JsTypeError (''Cannot read properties of '' @ v @ '' (reading '' @ [CHR 0x27] @ k @ [CHR 0x27] @ '')'')"

fun get_property :: "json \<Rightarrow> string \<Rightarrow> js_error + json" where
  "get_property JUndefined k = Inl (cannot_read ''undefined'' k)"
| "get_property JNull k = Inl (cannot_read ''null'' k)"
| "get_property (JObject kvs) k = Inr (case map_of kvs k of None \<Rightarrow> JUndefined | Some v \<Rightarrow> v)"
| "get_property v k = Inr JUndefined"

section \<open>Argument validator (utils.ts)\<close>

text \<open>
  A JSON-Schema object as \<open>convertToZodSchema\<close> reads it: the fields \<open>type\<close>,
  \<open>items\<close> and \<open>properties\<close>, each of which may be missing. A \<open>type\<close> that is
  not a string takes the \<open>default\<close> branch of the switch like a missing one and is not
  distinguished from it.
\<close>

datatype schema =
  Schema (schema_type: "string option")
         (schema_items: "schema option")
         (schema_properties: "(string \<times> schema) list option")

text \<open>The validators of the zod library that the source builds.\<close>

datatype zod =
    ZString
  | ZNumber
  | ZNumberInt
  | ZBoolean
  | ZArray zod
  | ZObject "(string \<times> zod) list"

definition unsupported_schema_type :: "string option \<Rightarrow> js_error" where
  "unsupported_schema_type t =
     JsError (''Unsupported schema type: '' @ (case t of None \<Rightarrow> ''undefined'' | Some s \<Rightarrow> s))"

text \<open>
  \<open>convertToZodSchema\<close>. The argument is optional because the recursive call passes
  \<open>schema.items\<close>, which may be \<open>undefined\<close>: then \<open>schema.type\<close> throws a
  \<open>TypeError\<close>. \<open>convert_properties\<close> is the \<open>for (const key in ...)\<close> loop, which
  stops at the first key whose conversion throws.
\<close>

function convertToZodSchema :: "schema option \<Rightarrow> js_error + zod"
  and convert_properties :: "(string \<times> schema) list \<Rightarrow> js_error + (string \<times> zod) list"
where
  "convertToZodSchema None = Inl (cannot_read ''undefined'' ''type'')"
| "convertToZodSchema (Some (Schema t items props)) =
     (if t = Some ''string'' then Inr ZString
      else if t = Some ''number'' then Inr ZNumber
      else if t = Some ''integer'' then Inr ZNumberInt
      else if t = Some ''boolean'' then Inr ZBoolean
      else if t = Some ''array'' then
        (case convertToZodSchema items of
           Inl e \<Rightarrow> Inl e
         | Inr z \<Rightarrow> Inr (ZArray z))
      else if t = Some ''object'' then
        (case convert_properties (case props of None \<Rightarrow> [] | Some ps \<Rightarrow> ps) of
           Inl e \<Rightarrow> Inl e
         | Inr shape \<Rightarrow> Inr (ZObject shape))
      else Inl (unsupported_schema_type t))"
| "convert_properties [] = Inr []"
| "convert_properties ((key, s) # rest) =
     (case convertToZodSchema (Some s) of
        Inl e \<Rightarrow> Inl e
      | Inr z \<Rightarrow>
         (case convert_properties rest of
            Inl e \<Rightarrow> Inl e
          | Inr shape \<Rightarrow> Inr ((key, z) # shape)))"
  by pat_completeness auto
termination
  by (relation "measure (case_sum (\<lambda>s. 2 * size_option size s)
         (\<lambda>ps. 2 * size_list (size_prod (\<lambda>x. 0) size) ps + 1))")
     (auto split: option.splits)

text \<open>
  \<open>validateArgsWithZod\<close>. The schema is built outside the \<open>try\<close>, so an error of
  \<open>convertToZodSchema\<close> leaves the function (\<open>Inl\<close>). \<open>parse z args\<close> stands for the
  zod library: it is true when \<open>z.parse(args)\<close> returns and false when it throws, which
  the \<open>catch\<close> turns into \<open>false\<close>.
\<close>

definition validateArgsWithZod ::
  "(zod \<Rightarrow> json \<Rightarrow> bool) \<Rightarrow> json \<Rightarrow> (string \<times> schema) list \<Rightarrow> js_error + bool" where
  "validateArgsWithZod parse args properties =
     (case convert_properties properties of
        Inl e \<Rightarrow> Inl e
      | Inr zodSchema \<Rightarrow> Inr (parse (ZObject zodSchema) args))"

section \<open>Conversation, tools and the model endpoint\<close>

datatype role = User | Assistant | Tool | System

record message =
  msg_role :: role
  msg_content :: string
  msg_name :: "string option"

text \<open>A tool-call request \<open>{name, arguments}\<close> as the model endpoint emits it.\<close>

record tool_call =
  call_name :: string
  call_arguments :: json

text \<open>
  An invoker has type \<open>(args: any) => Promise<string>\<close>. Calling it starts the work,
  which may change the outside world \<open>'w\<close>, and hands back a promise. The promise
  settles later: it resolves with a string or rejects with an \<open>Error\<close>, whose message is
  kept (the source reads what it catches as \<open>(error as Error).message\<close>). An invoker
  fails by rejecting its promise, as an async function does.
  \<open>settle_after\<close> is the time the promise takes; it only decides in which order the
  promises of one round settle.
\<close>

datatype settled = Resolved string | Rejected string

record promise =
  settle_after :: nat
  settles :: settled

type_synonym 'w invoker = "json \<Rightarrow> 'w \<Rightarrow> promise \<times> 'w"

record parameters =
  prm_type :: string
  prm_properties :: "(string \<times> schema) list"
  prm_required :: "string list"

text \<open>
  \<open>AiTextGenerationToolInputWithFunction\<close>: \<open>parameters\<close> and \<open>function\<close> are
  optional fields.
\<close>

record 'w tool =
  tool_name :: string
  tool_description :: string
  tool_parameters :: "parameters option"
  tool_function :: "'w invoker option"

text \<open>An entry \<open>{type, function}\<close> of the \<open>tools\<close> list sent to the model endpoint.\<close>

record 'w offered_tool =
  offer_type :: string
  offer_function :: "'w tool"

text \<open>The arguments of one \<open>ai.run(model, {messages, stream, tools?})\<close> call.\<close>

record 'w ai_request =
  req_model :: string
  req_messages :: "message list"
  req_stream :: bool
  req_tools :: "'w offered_tool list option"

text \<open>
  What \<open>ai.run\<close> returns: a structured result with optional \<open>response\<close> and
  \<open>tool_calls\<close>, or a byte stream. An element of \<open>tool_calls\<close> is \<open>None\<close> when it
  is a falsy value (\<open>null\<close>, \<open>undefined\<close>) rather than a request object.
\<close>

datatype ai_output =
    AiOutput "string option" "tool_call option list option"
  | AiStream string

fun tool_calls_of :: "ai_output \<Rightarrow> tool_call option list option" where
  "tool_calls_of (AiOutput response tcs) = tcs"
| "tool_calls_of (AiStream bytes) = None"

text \<open>The endpoint: it answers a request in a world, or throws, and may change the world.\<close>

type_synonym 'w ai = "'w ai_request \<Rightarrow> 'w \<Rightarrow> (js_error + ai_output) \<times> 'w"

text \<open>\<open>JSON.stringify\<close> and the zod library's \<open>parse\<close> are given by the runtime.\<close>

record runtime =
  JSON_stringify :: "json \<Rightarrow> string"
  zod_parse :: "zod \<Rightarrow> json \<Rightarrow> bool"

section \<open>Run state\<close>

text \<open>
  The state threaded through a run: the outside world, the trace of the calls made to the
  model endpoint with what each returned, and the messages handed to \<open>Logger.info\<close> and
  \<open>Logger.error\<close> (kept whether or not logging is enabled; the data argument of a
  logger call is not kept, and the logger calls that only report the messages, the number
  of tools or the character counts are left out, together with the character counter,
  which nothing else reads).
\<close>

datatype log_entry = LogInfo string | LogError string

record 'w run_state =
  world :: 'w
  trace :: "('w ai_request \<times> (js_error + ai_output)) list"
  logged :: "log_entry list"

definition Logger_info :: "string \<Rightarrow> 'w run_state \<Rightarrow> 'w run_state" where
  "Logger_info m st = st\<lparr>logged := logged st @ [LogInfo m]\<rparr>"

definition Logger_error :: "string \<Rightarrow> 'w run_state \<Rightarrow> 'w run_state" where
  "Logger_error m st = st\<lparr>logged := logged st @ [LogError m]\<rparr>"

definition ai_run ::
  "'w ai \<Rightarrow> 'w ai_request \<Rightarrow> 'w run_state \<Rightarrow> (js_error + ai_output) \<times> 'w run_state" where
  "ai_run ai req st =
     (case ai req (world st) of
        (r, w) \<Rightarrow> (r, st\<lparr>world := w, trace := trace st @ [(req, r)]\<rparr>))"

section \<open>Orchestration loop (runWithTools.ts)\<close>

text \<open>
  \<open>response.tool_calls?.filter(Boolean) ?? []\<close>: a missing list is the empty list, and
  falsy elements are dropped.
\<close>

fun filter_Boolean :: "'a option list \<Rightarrow> 'a list" where
  "filter_Boolean [] = []"
| "filter_Boolean (None # xs) = filter_Boolean xs"
| "filter_Boolean (Some x # xs) = x # filter_Boolean xs"

definition requested_tool_calls :: "ai_output \<Rightarrow> tool_call list" where
  "requested_tool_calls response =
     (case tool_calls_of response of None \<Rightarrow> [] | Some tcs \<Rightarrow> filter_Boolean tcs)"

definition json_of_tool_call :: "tool_call \<Rightarrow> json" where
  "json_of_tool_call tc =
     JObject [(''name'', JString (call_name tc)), (''arguments'', call_arguments tc)]"

text \<open>
  The callback given to \<open>tool_calls.map\<close> is an async function: \<open>map\<close> runs each
  callback, in the order of the list, up to its first \<open>await\<close>. A callback has then
  returned, has thrown (its promise is rejected), or waits for the promise of the invoker it
  started, remembered with the name of the selected tool.
\<close>

datatype task = Returned | Threw js_error | Awaiting string promise

definition execute_tool ::
  "'w tool \<Rightarrow> 'w invoker \<Rightarrow> json \<Rightarrow> 'w run_state \<Rightarrow> task \<times> 'w run_state" where
  "execute_tool selectedTool fn args st =
     (let st1 = Logger_info (''Executing tool '' @ tool_name selectedTool @ '' with arguments'') st
      in case fn args (world st1) of
           (p, w) \<Rightarrow> (Awaiting (tool_name selectedTool) p, st1\<lparr>world := w\<rparr>))"

definition toolCall_start ::
  "runtime \<Rightarrow> 'w tool list \<Rightarrow> bool \<Rightarrow> tool_call \<Rightarrow> message list \<Rightarrow> 'w run_state
     \<Rightarrow> task \<times> message list \<times> 'w run_state" where
  "toolCall_start rt input_tools strictValidation toolCall messages st =
     (let messages1 = messages @
            [\<lparr>msg_role = Assistant,
              msg_content = JSON_stringify rt (json_of_tool_call toolCall),
              msg_name = None\<rparr>]
      in case find (\<lambda>tool. tool_name tool = call_name toolCall) input_tools of
           None \<Rightarrow>
             (Returned, messages1,
              Logger_error (''Tool '' @ call_name toolCall @ '' not found, maybe AI hallucinated'') st)
         | Some selectedTool \<Rightarrow>
             (case (tool_function selectedTool, tool_parameters selectedTool) of
                (Some fn, Some ps) \<Rightarrow>
                  (let args = call_arguments toolCall in
                   if strictValidation then
                     (case validateArgsWithZod (zod_parse rt) args (prm_properties ps) of
                        Inl e \<Rightarrow> (Threw e, messages1, st)
                      | Inr valid \<Rightarrow>
                          if \<not> valid then
                            (Returned, messages1,
                             Logger_error (''Invalid arguments for tool '' @ tool_name selectedTool
                                             @ '': '' @ JSON_stringify rt args)
                               (Logger_error ''Validation failed:'' st))
                          else
                            (case execute_tool selectedTool fn args
                                    (Logger_info ''Validation passed'' st) of
                               (t, st1) \<Rightarrow> (t, messages1, st1)))
                   else
                     (case execute_tool selectedTool fn args st of
                        (t, st1) \<Rightarrow> (t, messages1, st1)))
              | _ \<Rightarrow>
                  (Returned, messages1,
                   Logger_error (''Function for tool '' @ call_name toolCall @ '' is undefined'') st)))"

fun toolCallPromises ::
  "runtime \<Rightarrow> 'w tool list \<Rightarrow> bool \<Rightarrow> tool_call list \<Rightarrow> message list \<Rightarrow> 'w run_state
     \<Rightarrow> task list \<times> message list \<times> 'w run_state" where
  "toolCallPromises rt input_tools strictValidation [] messages st = ([], messages, st)"
| "toolCallPromises rt input_tools strictValidation (toolCall # rest) messages st =
     (case toolCall_start rt input_tools strictValidation toolCall messages st of
        (t, messages1, st1) \<Rightarrow>
          (case toolCallPromises rt input_tools strictValidation rest messages1 st1 of
             (ts, messages2, st2) \<Rightarrow> (t # ts, messages2, st2)))"

text \<open>
  After the \<open>await\<close>: the rest of a waiting callback runs when its promise settles, and
  appends the tool-result turn or the error turn.
\<close>

definition toolCall_settle ::
  "runtime \<Rightarrow> string \<times> promise \<Rightarrow> message list \<times> 'w run_state \<Rightarrow> message list \<times> 'w run_state" where
  "toolCall_settle rt np acc =
     (case (np, acc) of
        ((selectedTool_name, p), (messages, st)) \<Rightarrow>
          (case settles p of
             Resolved result \<Rightarrow>
               (messages @
                  [\<lparr>msg_role = Tool,
                    msg_content = JSON_stringify rt (JString result),
                    msg_name = Some selectedTool_name\<rparr>],
                Logger_info (''Tool '' @ selectedTool_name @ '' execution result'') st)
           | Rejected reason \<Rightarrow>
               (messages @
                  [\<lparr>msg_role = Tool,
                    msg_content = ''Error executing tool '' @ selectedTool_name @ '': '' @ reason,
                    msg_name = Some selectedTool_name\<rparr>],
                Logger_error (''Error executing tool '' @ selectedTool_name @ '':'') st)))"

fun awaiting :: "task list \<Rightarrow> (string \<times> promise) list" where
  "awaiting [] = []"
| "awaiting (Awaiting n p # ts) = (n, p) # awaiting ts"
| "awaiting (t # ts) = awaiting ts"

fun first_rejection :: "task list \<Rightarrow> js_error option" where
  "first_rejection [] = None"
| "first_rejection (Threw e # ts) = Some e"
| "first_rejection (t # ts) = first_rejection ts"

text \<open>
  The promises settle in the order of their times, those with equal times in the order in
  which they were started (\<open>sort_key\<close> is stable).
\<close>

definition settle_order :: "(string \<times> promise) list \<Rightarrow> (string \<times> promise) list" where
  "settle_order ps = sort_key (\<lambda>np. settle_after (snd np)) ps"

text \<open>
  \<open>await Promise.all(toolCallPromises)\<close>: it rejects with the first rejected callback, and
  otherwise returns once every started invoker has settled and its turn is appended.
\<close>

definition Promise_all ::
  "runtime \<Rightarrow> task list \<Rightarrow> message list \<Rightarrow> 'w run_state \<Rightarrow> (js_error + message list) \<times> 'w run_state" where
  "Promise_all rt tasks messages st =
     (case first_rejection tasks of
        Some e \<Rightarrow> (Inl e, st)
      | None \<Rightarrow>
          (case fold (toolCall_settle rt) (settle_order (awaiting tasks)) (messages, st) of
             (messages1, st1) \<Rightarrow> (Inr messages1, st1)))"

text \<open>The variables \<open>runAndProcessToolCall\<close> takes or closes over, other than the messages and the budget.\<close>

record 'w closure =
  c_ai :: "'w ai"
  c_model :: string
  c_input_tools :: "'w tool list"
  c_tools :: "'w offered_tool list"
  c_strictValidation :: bool
  c_streamFinalResponse :: bool

text \<open>
  \<open>runAndProcessToolCall\<close>. The budget \<open>maxRecursiveToolRuns\<close> is an integer. The whole
  body stands in a \<open>try\<close> whose \<open>catch\<close> wraps the message of whatever was thrown
  (by the model endpoint, by \<open>Promise.all\<close>, or by the recursive call, which has wrapped
  it already) and throws again: \<open>rethrow\<close>. The failure of an invoker is not such an
  error: the inner \<open>catch\<close> takes it as an \<open>Error\<close> and turns its message into a turn.
\<close>

definition rethrow :: "js_error \<Rightarrow> 'w run_state \<Rightarrow> (js_error + ai_output) \<times> 'w run_state" where
  "rethrow e st =
     (Inl (JsError (''Error in runAndProcessToolCall: '' @ error_message e)),
      Logger_error ''Error in runAndProcessToolCall:'' st)"

function runAndProcessToolCall ::
  "runtime \<Rightarrow> 'w closure \<Rightarrow> message list \<Rightarrow> int \<Rightarrow> 'w run_state
     \<Rightarrow> (js_error + ai_output) \<times> 'w run_state" where
  "runAndProcessToolCall rt c messages maxRecursiveToolRuns st =
     (case ai_run (c_ai c)
             \<lparr>req_model = c_model c, req_messages = messages, req_stream = False,
              req_tools = Some (c_tools c)\<rparr>
             (Logger_info ''Starting AI.run call'' st) of
        (Inl e, st1) \<Rightarrow> rethrow e st1
      | (Inr response, st1) \<Rightarrow>
          (let tool_calls = requested_tool_calls response in
           case toolCallPromises rt (c_input_tools c) (c_strictValidation c) tool_calls messages
                  (Logger_info ''AI.run call completed'' st1) of
             (tasks, messages1, st2) \<Rightarrow>
               (case Promise_all rt tasks messages1 st2 of
                  (Inl e, st3) \<Rightarrow> rethrow e st3
                | (Inr messages2, st3) \<Rightarrow>
                    if maxRecursiveToolRuns > 0 \<and> length tool_calls > 0 then
                      (case runAndProcessToolCall rt c messages2 (maxRecursiveToolRuns - 1) st3 of
                         (Inl e, st4) \<Rightarrow> rethrow e st4
                       | (Inr out, st4) \<Rightarrow> (Inr out, st4))
                    else
                      (case ai_run (c_ai c)
                              \<lparr>req_model = c_model c, req_messages = messages2,
                               req_stream = c_streamFinalResponse c, req_tools = None\<rparr>
                              (Logger_info
                                 ''Max recursive tool runs reached, generating final response'' st3) of
                         (Inl e, st4) \<Rightarrow> rethrow e st4
                       | (Inr finalResponse, st4) \<Rightarrow> (Inr finalResponse, st4)))))"
  by pat_completeness auto
termination
  by (relation "measure (\<lambda>(rt, c, messages, maxRecursiveToolRuns, st). nat maxRecursiveToolRuns)")
     auto

text \<open>
  \<open>runWithTools\<close>. The input's tools keep their functions; the list offered to the
  model endpoint is rebuilt from the tools the trim function chose. A trim function has the
  endpoint at hand and may call it; when it rejects, the error leaves \<open>runWithTools\<close>
  as it is, since the call is outside every \<open>try\<close>.
\<close>

record 'w input =
  in_messages :: "message list"
  in_tools :: "'w tool list"

type_synonym 'w trim =
  "'w tool list \<Rightarrow> 'w ai \<Rightarrow> string \<Rightarrow> message list \<Rightarrow> 'w run_state
     \<Rightarrow> (js_error + 'w tool list) \<times> 'w run_state"

record 'w config =
  streamFinalResponse :: "bool option"
  maxRecursiveToolRuns :: "int option"
  strictValidation :: "bool option"
  verbose :: "bool option"
  trimFunction :: "'w trim option"

definition default_trimFunction :: "'w trim" where
  "default_trimFunction tools ai model messages st = (Inr tools, st)"

text \<open>\<open>({ function: _function, ...rest }) => rest\<close>\<close>

definition without_function :: "'w tool \<Rightarrow> 'w tool" where
  "without_function tool = tool\<lparr>tool_function := None\<rparr>"

text \<open>\<open>(tool) => ({ type: "function", function: { ...tool, function: undefined } })\<close>\<close>

definition offer :: "'w tool \<Rightarrow> 'w offered_tool" where
  "offer tool = \<lparr>offer_type = ''function'', offer_function = tool\<lparr>tool_function := None\<rparr>\<rparr>"

definition initialtoolsWithoutFunctions :: "'w input \<Rightarrow> 'w tool list" where
  "initialtoolsWithoutFunctions input = map without_function (in_tools input)"

text \<open>The value of \<open>tools\<close> before the trim function runs.\<close>

definition initial_tools :: "'w input \<Rightarrow> 'w offered_tool list" where
  "initial_tools input = map offer (initialtoolsWithoutFunctions input)"

definition runWithTools ::
  "runtime \<Rightarrow> 'w ai \<Rightarrow> string \<Rightarrow> 'w input \<Rightarrow> 'w config \<Rightarrow> 'w run_state
     \<Rightarrow> (js_error + ai_output) \<times> 'w run_state" where
  "runWithTools rt ai model input config st =
     (let streamFinalResponse1 = (case streamFinalResponse config of None \<Rightarrow> False | Some b \<Rightarrow> b);
          maxRecursiveToolRuns1 = (case maxRecursiveToolRuns config of None \<Rightarrow> 0 | Some n \<Rightarrow> n);
          trimFunction1 = (case trimFunction config of None \<Rightarrow> default_trimFunction | Some f \<Rightarrow> f);
          strictValidation1 = (case strictValidation config of None \<Rightarrow> False | Some b \<Rightarrow> b);
          messages = in_messages input
      in case trimFunction1 (in_tools input) ai model messages st of
           (Inl e, st1) \<Rightarrow> (Inl e, st1)
         | (Inr chosenTools, st1) \<Rightarrow>
             (case runAndProcessToolCall rt
                     \<lparr>c_ai = ai, c_model = model, c_input_tools = in_tools input,
                      c_tools = map offer chosenTools,
                      c_strictValidation = strictValidation1,
                      c_streamFinalResponse = streamFinalResponse1\<rparr>
                     messages maxRecursiveToolRuns1
                     (Logger_info ''Starting runWithTools process'' st1) of
                (Inl e, st2) \<Rightarrow>
                  (Inl (JsError (''Error in runWithTools: '' @ error_message e)),
                   Logger_error ''Error in runWithTools:'' st2)
              | (Inr result, st2) \<Rightarrow>
                  (Inr result, Logger_info ''runWithTools process completed'' st2)))"

section \<open>Tool selector (utils.ts)\<close>

definition chooseTools :: "'w tool" where
  "chooseTools =
     \<lparr>tool_name = ''chooseTool'',
      tool_description = ''This tool will choose the best tools for a given task'',
      tool_parameters = Some
        \<lparr>prm_type = ''object'',
         prm_properties =
           [(''tools'', Schema (Some ''array'') (Some (Schema (Some ''string'') None None)) None)],
         prm_required = [''tools'']\<rparr>,
      tool_function = None\<rparr>"

fun join :: "string \<Rightarrow> string list \<Rightarrow> string" where
  "join sep [] = []"
| "join sep [x] = x"
| "join sep (x # y # ys) = x @ sep @ join sep (y # ys)"

fun role_name :: "role \<Rightarrow> string" where
  "role_name User = ''user''"
| "role_name Assistant = ''assistant''"
| "role_name Tool = ''tool''"
| "role_name System = ''system''"

definition json_of_message :: "message \<Rightarrow> json" where
  "json_of_message m =
     JObject ([(''role'', JString (role_name (msg_role m))), (''content'', JString (msg_content m))]
              @ (case msg_name m of None \<Rightarrow> [] | Some n \<Rightarrow> [(''name'', JString n)]))"

definition toolsPrompt :: "runtime \<Rightarrow> 'w tool list \<Rightarrow> message list \<Rightarrow> string" where
  "toolsPrompt rt tools messages =
     ''For the following prompt, please find the best tool names that will be suitable to complete some tasks. For this, you must run the ''
     @ [CHR 0x22] @ ''chooseTool'' @ [CHR 0x22] @ '' tool. '' @ [CHR 0x0A]
     @ ''Here are the available tool names to choose from: ''
     @ join '', '' (map tool_name tools) @ ''. '' @ [CHR 0x0A]
     @ ''Here are the messages: '' @ [CHR 0x0A, CHR 0x0A]
     @ JSON_stringify rt (JArray (map json_of_message messages)) @ ''.''"

text \<open>
  \<open>autoTrimTools\<close>. \<open>tools.includes(tool.name)\<close> holds when an element of the array is
  the string \<open>tool.name\<close>.
\<close>

definition autoTrimTools :: "runtime \<Rightarrow> 'w trim" where
  "autoTrimTools rt tools ai model messages st =
     (if length tools < 5 then
        (Inr tools,
         Logger_error ''autoTrimTools is only supported for tasks with more than 4 tools'' st)
      else
        (case ai_run ai
                \<lparr>req_model = model,
                 req_messages =
                   [\<lparr>msg_role = User, msg_content = toolsPrompt rt tools messages, msg_name = None\<rparr>],
                 req_stream = False,
                 req_tools = Some [\<lparr>offer_type = ''function'', offer_function = chooseTools\<rparr>]\<rparr>
                st of
           (Inl e, st1) \<Rightarrow> (Inl e, st1)
         | (Inr toolsResponse, st1) \<Rightarrow>
             (case map_option filter_Boolean (tool_calls_of toolsResponse) of
                None \<Rightarrow> (Inr tools, st1)
              | Some [] \<Rightarrow> (Inr tools, st1)
              | Some (chosen # others) \<Rightarrow>
                  (case get_property (call_arguments chosen) ''tools'' of
                     Inl e \<Rightarrow> (Inl e, st1)
                   | Inr (JArray names) \<Rightarrow>
                       (Inr (filter (\<lambda>tool. JString (tool_name tool) \<in> set names) tools),
                        Logger_info ''Chosen tools'' st1)
                   | Inr other \<Rightarrow> (Inr tools, Logger_info ''Chosen tools'' st1)))))"

section \<open>Invokers built from an OpenAPI description (createToolsFromOpenAPISpec.ts)\<close>

text \<open>
  The invoker of \<open>createToolFunction\<close> receives \<open>args: Record<string, any>\<close>, here
  the list of its properties in insertion order (keys distinct). \<open>property args k\<close> is
  \<open>args.k\<close>.
\<close>

definition property :: "(string \<times> json) list \<Rightarrow> string \<Rightarrow> json" where
  "property args k = (case map_of args k of None \<Rightarrow> JUndefined | Some v \<Rightarrow> v)"

definition Object_keys :: "(string \<times> json) list \<Rightarrow> string list" where
  "Object_keys args = map fst args"

text \<open>The condition of the \<open>if\<close> that guards \<open>args.query = args\<close>.\<close>

definition args_taken_as_query :: "(string \<times> json) list \<Rightarrow> bool" where
  "args_taken_as_query args \<longleftrightarrow>
     length (Object_keys args) > 0 \<and>
     \<not> truthy (property args ''header'') \<and>
     \<not> truthy (property args ''query'') \<and>
     \<not> truthy (property args ''cookie'') \<and>
     \<not> truthy (property args ''formData'') \<and>
     \<not> truthy (property args ''body'')"

text \<open>
  A value handed to \<open>queryParams.append\<close>: a value of the arguments, or the arguments
  object itself, which \<open>args.query = args\<close> stores under the key \<open>query\<close>.
\<close>

datatype query_value = Of json | Args_itself

function string_of_nat :: "nat \<Rightarrow> string" where
  "string_of_nat n =
     (if n < 10 then [char_of (48 + n)]
      else string_of_nat (n div 10) @ [char_of (48 + n mod 10)])"
  by pat_completeness auto
termination
  by (relation "measure (\<lambda>n. n)") auto

text \<open>The enumerable properties \<open>for (const key in v)\<close> visits, with their values.\<close>

fun for_in :: "json \<Rightarrow> (string \<times> json) list" where
  "for_in (JObject kvs) = kvs"
| "for_in (JArray xs) = zip (map string_of_nat [0..<length xs]) xs"
| "for_in (JString s) = zip (map string_of_nat [0..<length s]) (map (\<lambda>ch. JString [ch]) s)"
| "for_in v = []"

text \<open>
  The properties of \<open>args\<close> once \<open>args.query = args\<close> has run: an existing key
  \<open>query\<close> keeps its place, a new one comes last.
\<close>

definition query_set_to_args :: "(string \<times> json) list \<Rightarrow> (string \<times> query_value) list" where
  "query_set_to_args args =
     (if ''query'' \<in> set (Object_keys args)
      then map (\<lambda>kv. if fst kv = ''query'' then (fst kv, Args_itself) else (fst kv, Of (snd kv))) args
      else map (\<lambda>kv. (fst kv, Of (snd kv))) args @ [(''query'', Args_itself)])"

text \<open>
  What the loop \<open>for (const key in args.query) queryParams.append(key, args.query[key])\<close>
  appends, after the guarded assignment.
\<close>

definition args_queryParams :: "(string \<times> json) list \<Rightarrow> (string \<times> query_value) list" where
  "args_queryParams args =
     (if args_taken_as_query args then query_set_to_args args
      else map (\<lambda>kv. (fst kv, Of (snd kv))) (for_in (property args ''query'')))"

section \<open>Reading a run\<close>

text \<open>
  The two requests \<open>runAndProcessToolCall\<close> sends: the one of a round, with the tools
  offered, and the final one, with \<open>tools\<close> omitted.
\<close>

definition tools_request :: "'w closure \<Rightarrow> message list \<Rightarrow> 'w ai_request" where
  "tools_request c messages =
     \<lparr>req_model = c_model c, req_messages = messages, req_stream = False,
      req_tools = Some (c_tools c)\<rparr>"

definition final_request :: "'w closure \<Rightarrow> message list \<Rightarrow> 'w ai_request" where
  "final_request c messages =
     \<lparr>req_model = c_model c, req_messages = messages,
      req_stream = c_streamFinalResponse c, req_tools = None\<rparr>"

text \<open>
  One round of \<open>runAndProcessToolCall\<close>, up to the test of the budget: the model call, the
  callbacks and \<open>Promise.all\<close>. It yields the requested tool calls and the messages after
  the round, or the error that was thrown. \<open>final_call\<close> is the \<open>else\<close> branch.
  \<open>run_unfold\<close> below shows that the loop is these two, composed.
\<close>

definition tool_round ::
  "runtime \<Rightarrow> 'w closure \<Rightarrow> message list \<Rightarrow> 'w run_state
     \<Rightarrow> (js_error + tool_call list \<times> message list) \<times> 'w run_state" where
  "tool_round rt c messages st =
     (case ai_run (c_ai c) (tools_request c messages) (Logger_info ''Starting AI.run call'' st) of
        (Inl e, st1) \<Rightarrow> (Inl e, st1)
      | (Inr response, st1) \<Rightarrow>
          (case toolCallPromises rt (c_input_tools c) (c_strictValidation c)
                  (requested_tool_calls response) messages
                  (Logger_info ''AI.run call completed'' st1) of
             (tasks, messages1, st2) \<Rightarrow>
               (case Promise_all rt tasks messages1 st2 of
                  (Inl e, st3) \<Rightarrow> (Inl e, st3)
                | (Inr messages2, st3) \<Rightarrow> (Inr (requested_tool_calls response, messages2), st3))))"

definition final_call ::
  "'w closure \<Rightarrow> message list \<Rightarrow> 'w run_state \<Rightarrow> (js_error + ai_output) \<times> 'w run_state" where
  "final_call c messages st =
     (case ai_run (c_ai c) (final_request c messages)
             (Logger_info ''Max recursive tool runs reached, generating final response'' st) of
        (Inl e, st1) \<Rightarrow> rethrow e st1
      | (Inr finalResponse, st1) \<Rightarrow> (Inr finalResponse, st1))"

text \<open>The turns a round appends: one for each request, one for each settled invoker.\<close>

definition request_turn :: "runtime \<Rightarrow> tool_call \<Rightarrow> message" where
  "request_turn rt toolCall =
     \<lparr>msg_role = Assistant, msg_content = JSON_stringify rt (json_of_tool_call toolCall),
      msg_name = None\<rparr>"

definition result_turn :: "runtime \<Rightarrow> string \<times> promise \<Rightarrow> message" where
  "result_turn rt np =
     (case settles (snd np) of
        Resolved result \<Rightarrow>
          \<lparr>msg_role = Tool, msg_content = JSON_stringify rt (JString result),
           msg_name = Some (fst np)\<rparr>
      | Rejected reason \<Rightarrow>
          \<lparr>msg_role = Tool,
           msg_content = ''Error executing tool '' @ fst np @ '': '' @ reason,
           msg_name = Some (fst np)\<rparr>)"

text \<open>
  Measures on a trace. A call offers tools when \<open>tools\<close> is present. A tool-dispatch
  round is a call that offered tools and was answered with at least one tool call, which
  the loop then dispatched.
\<close>

definition offers_tools :: "'w ai_request \<Rightarrow> bool" where
  "offers_tools req = (case req_tools req of None \<Rightarrow> False | Some ts \<Rightarrow> True)"

definition tool_rounds :: "('w ai_request \<times> (js_error + ai_output)) list \<Rightarrow> nat" where
  "tool_rounds tr = length (filter (\<lambda>call. offers_tools (fst call)) tr)"

definition dispatch_round :: "'w ai_request \<times> (js_error + ai_output) \<Rightarrow> bool" where
  "dispatch_round call =
     (offers_tools (fst call) \<and>
      (case snd call of Inl e \<Rightarrow> False | Inr response \<Rightarrow> requested_tool_calls response \<noteq> []))"

definition dispatch_rounds :: "('w ai_request \<times> (js_error + ai_output)) list \<Rightarrow> nat" where
  "dispatch_rounds tr = length (filter dispatch_round tr)"

text \<open>A request shows the model no invoker: every tool it offers has \<open>function\<close> undefined.\<close>

definition no_invoker :: "'w ai_request \<Rightarrow> bool" where
  "no_invoker req =
     (case req_tools req of
        None \<Rightarrow> True
      | Some ts \<Rightarrow> list_all (\<lambda>t. tool_function (offer_function t) = None) ts)"

text \<open>
  The closure with which \<open>runWithTools\<close> enters the loop, for the tools the trim
  function chose (\<open>runWithTools_loop\<close> below).
\<close>

definition run_closure ::
  "'w ai \<Rightarrow> string \<Rightarrow> 'w input \<Rightarrow> 'w config \<Rightarrow> 'w tool list \<Rightarrow> 'w closure" where
  "run_closure ai model input config chosenTools =
     \<lparr>c_ai = ai, c_model = model, c_input_tools = in_tools input,
      c_tools = map offer chosenTools,
      c_strictValidation = (case strictValidation config of None \<Rightarrow> False | Some b \<Rightarrow> b),
      c_streamFinalResponse = (case streamFinalResponse config of None \<Rightarrow> False | Some b \<Rightarrow> b)\<rparr>"

text \<open>The request \<open>autoTrimTools\<close> sends.\<close>

definition chooseTool_request ::
  "runtime \<Rightarrow> 'w tool list \<Rightarrow> string \<Rightarrow> message list \<Rightarrow> 'w ai_request" where
  "chooseTool_request rt tools model messages =
     \<lparr>req_model = model,
      req_messages =
        [\<lparr>msg_role = User, msg_content = toolsPrompt rt tools messages, msg_name = None\<rparr>],
      req_stream = False,
      req_tools = Some [\<lparr>offer_type = ''function'', offer_function = chooseTools\<rparr>]\<rparr>"

section \<open>Sample runtime, endpoints and tools\<close>

text \<open>
  Concrete values for the examples. \<open>json_text\<close> writes a value as
  \<open>JSON.stringify\<close> does for strings without control characters and for values without
  \<open>undefined\<close> members; \<open>zod_accepts\<close> follows the zod validators the source builds
  (an object validator checks each declared key and ignores the others).
\<close>

fun escape :: "char \<Rightarrow> string" where
  "escape ch = (if ch = CHR 0x22 then [CHR 0x5C, CHR 0x22]
                else if ch = CHR 0x5C then [CHR 0x5C, CHR 0x5C] else [ch])"

definition quote :: "string \<Rightarrow> string" where
  "quote s = [CHR 0x22] @ concat (map escape s) @ [CHR 0x22]"

fun json_text :: "json \<Rightarrow> string"
  and elements_text :: "json list \<Rightarrow> string"
  and members_text :: "(string \<times> json) list \<Rightarrow> string"
where
  "json_text JUndefined = ''null''"
| "json_text JNull = ''null''"
| "json_text (JBool b) = (if b then ''true'' else ''false'')"
| "json_text (JNumber n) =
     (if n < 0 then ''-'' @ string_of_nat (nat (- n)) else string_of_nat (nat n))"
| "json_text (JString s) = quote s"
| "json_text (JArray xs) = ''['' @ elements_text xs @ '']''"
| "json_text (JObject kvs) = ''{'' @ members_text kvs @ ''}''"
| "elements_text [] = []"
| "elements_text [x] = json_text x"
| "elements_text (x # y # ys) = json_text x @ '','' @ elements_text (y # ys)"
| "members_text [] = []"
| "members_text [(k, v)] = quote k @ '':'' @ json_text v"
| "members_text ((k, v) # kv # kvs) =
     quote k @ '':'' @ json_text v @ '','' @ members_text (kv # kvs)"

fun zod_accepts :: "zod \<Rightarrow> json \<Rightarrow> bool" where
  "zod_accepts ZString (JString s) = True"
| "zod_accepts ZNumber (JNumber n) = True"
| "zod_accepts ZNumberInt (JNumber n) = True"
| "zod_accepts ZBoolean (JBool b) = True"
| "zod_accepts (ZArray z) (JArray xs) = list_all (zod_accepts z) xs"
| "zod_accepts (ZObject shape) (JObject kvs) =
     list_all (\<lambda>kz. zod_accepts (snd kz) (property kvs (fst kz))) shape"
| "zod_accepts z v = False"

definition sample_runtime :: runtime where
  "sample_runtime = \<lparr>JSON_stringify = json_text, zod_parse = zod_accepts\<rparr>"

text \<open>
  A scripted endpoint: the world is the list of answers still to give, and each call takes
  the next one. An eager endpoint: it asks for \<open>getUser\<close> whenever tools are offered;
  its world counts the calls.
\<close>

definition scripted_ai :: "(js_error + ai_output) list ai" where
  "scripted_ai req w =
     (case w of
        [] \<Rightarrow> (Inl (JsError ''no answer left''), [])
      | r # rs \<Rightarrow> (r, rs))"

definition getUser_call :: tool_call where
  "getUser_call = \<lparr>call_name = ''getUser'', call_arguments = JObject []\<rparr>"

definition eager_ai :: "nat ai" where
  "eager_ai req w =
     (case req_tools req of
        None \<Rightarrow> (Inr (AiOutput (Some ''X is a user'') None), Suc w)
      | Some ts \<Rightarrow> (Inr (AiOutput None (Some [Some getUser_call])), Suc w))"

definition no_parameters :: parameters where
  "no_parameters = \<lparr>prm_type = ''object'', prm_properties = [], prm_required = []\<rparr>"

definition getUser :: "'w tool" where
  "getUser =
     \<lparr>tool_name = ''getUser'', tool_description = ''Looks a user up'',
      tool_parameters = Some no_parameters,
      tool_function = Some (\<lambda>args w.
        (\<lparr>settle_after = 1,
          settles = Resolved (''{'' @ quote ''name'' @ '':'' @ quote ''X'' @ ''}'')\<rparr>, w))\<rparr>"

definition question :: "message list" where
  "question =
     [\<lparr>msg_role = User, msg_content = ''Who is X on example.org?'', msg_name = None\<rparr>]"

definition start_state :: "'w \<Rightarrow> 'w run_state" where
  "start_state w = \<lparr>world = w, trace = [], logged = []\<rparr>"

definition eager_closure :: "nat closure" where
  "eager_closure =
     \<lparr>c_ai = eager_ai, c_model = ''sample-model'', c_input_tools = [getUser],
      c_tools = map offer [getUser], c_strictValidation = False,
      c_streamFinalResponse = False\<rparr>"

text \<open>The configuration \<open>{}\<close>, and a script of two answers without tool calls.\<close>

definition default_config :: "'w config" where
  "default_config =
     \<lparr>streamFinalResponse = None, maxRecursiveToolRuns = None, strictValidation = None,
      verbose = None, trimFunction = None\<rparr>"

definition plain_answers :: "(js_error + ai_output) list" where
  "plain_answers =
     [Inr (AiOutput (Some ''I can answer that myself'') None),
      Inr (AiOutput (Some ''X is a user of example.org'') None)]"

definition lookup_tool :: "string \<Rightarrow> 'w tool" where
  "lookup_tool n = getUser\<lparr>tool_name := n\<rparr>"

definition five_tools :: "'w tool list" where
  "five_tools = map lookup_tool [''getUser'', ''getRepo'', ''getOrg'', ''getIssue'', ''getCommit'']"

text \<open>An answer whose tool call has no \<open>arguments\<close>.\<close>

definition chooseTool_without_arguments :: ai_output where
  "chooseTool_without_arguments =
     AiOutput None (Some [Some \<lparr>call_name = ''chooseTool'', call_arguments = JUndefined\<rparr>])"

text \<open>
  An endpoint that asks for one tool call on its first call and answers in plain text
  afterwards; its world counts the calls. Then three tools: one whose invoker rejects, one
  that declares a required string parameter, and one that declares no parameters.
\<close>

definition asking_ai :: "tool_call \<Rightarrow> nat ai" where
  "asking_ai call req w =
     (if w = 0 then Inr (AiOutput None (Some [Some call]))
      else Inr (AiOutput (Some ''X is a user of example.org'') None), Suc w)"

definition asking_closure :: "bool \<Rightarrow> nat tool list \<Rightarrow> tool_call \<Rightarrow> nat closure" where
  "asking_closure strict tools call =
     \<lparr>c_ai = asking_ai call, c_model = ''sample-model'', c_input_tools = tools,
      c_tools = map offer tools, c_strictValidation = strict, c_streamFinalResponse = False\<rparr>"


definition getWeather_call :: tool_call where
  "getWeather_call =
     \<lparr>call_name = ''getWeather'', call_arguments = JObject [(''city'', JString ''Paris'')]\<rparr>"

definition getProfile :: "'w tool" where
  "getProfile =
     \<lparr>tool_name = ''getProfile'', tool_description = ''Looks a profile up'',
      tool_parameters = Some
        \<lparr>prm_type = ''object'',
         prm_properties = [(''username'', Schema (Some ''string'') None None)],
         prm_required = [''username'']\<rparr>,
      tool_function = Some (\<lambda>args w.
        (\<lparr>settle_after = 0, settles = Resolved ''a profile''\<rparr>, w))\<rparr>"

definition getProfile_call :: tool_call where
  "getProfile_call = \<lparr>call_name = ''getProfile'', call_arguments = JObject []\<rparr>"

definition ping :: "'w tool" where
  "ping =
     \<lparr>tool_name = ''ping'', tool_description = ''Answers pong'',
      tool_parameters = None,
      tool_function = Some (\<lambda>args w.
        (\<lparr>settle_after = 0, settles = Resolved ''pong''\<rparr>, w))\<rparr>"

definition ping_call :: tool_call where
  "ping_call = \<lparr>call_name = ''ping'', call_arguments = JObject []\<rparr>"

section \<open>Conditions on a run\<close>

text \<open>
  The endpoint never throws. The schema of every tool can be built, so that
  \<open>validateArgsWithZod\<close> returns for it.
\<close>

definition never_throws :: "'w ai \<Rightarrow> bool" where
  "never_throws ai = (\<forall>req w. \<exists>out. fst (ai req w) = Inr out)"

definition schemas_convert :: "'w tool list \<Rightarrow> bool" where
  "schemas_convert tools =
     list_all (\<lambda>t. case tool_parameters t of
                      None \<Rightarrow> True
                    | Some ps \<Rightarrow>
                        (case convert_properties (prm_properties ps) of
                           Inl e \<Rightarrow> False
                         | Inr shape \<Rightarrow> True)) tools"

text \<open>
  A schema that \<open>convertToZodSchema\<close> can convert: its type is one of the six supported
  ones, an array declares its items, and the items and the properties are such schemas.
\<close>

fun supported :: "schema \<Rightarrow> bool" where
  "supported (Schema t items props) =
     (t = Some ''string'' \<or> t = Some ''number'' \<or> t = Some ''integer'' \<or> t = Some ''boolean'' \<or>
      (t = Some ''array'' \<and> (case items of None \<Rightarrow> False | Some i \<Rightarrow> supported i)) \<or>
      (t = Some ''object'' \<and>
         (case props of None \<Rightarrow> True | Some ps \<Rightarrow> list_all (\<lambda>kv. supported (snd kv)) ps)))"

section \<open>The trace of a run\<close>

declare runAndProcessToolCall.simps [simp del]

text \<open>Only a call to the model endpoint extends the trace, by one entry.\<close>

lemma trace_Logger [simp]:
  "trace (Logger_info m st) = trace st" "trace (Logger_error m st) = trace st"
  "world (Logger_info m st) = world st" "world (Logger_error m st) = world st"
  by (simp_all add: Logger_info_def Logger_error_def)

lemma ai_run_eq:
  "ai_run ai req st = (fst (ai req (world st)),
      st\<lparr>world := snd (ai req (world st)), trace := trace st @ [(req, fst (ai req (world st)))]\<rparr>)"
  by (simp add: ai_run_def split: prod.splits)

lemma trace_ai_run:
  "ai_run ai req st = (r, st1) \<Longrightarrow> trace st1 = trace st @ [(req, r)] \<and> r = fst (ai req (world st))"
  by (auto simp: ai_run_eq)

lemma trace_execute_tool: "execute_tool t fn args st = (tk, st1) \<Longrightarrow> trace st1 = trace st"
  by (auto simp: execute_tool_def Let_def split: prod.splits)

lemma trace_toolCall_start:
  "toolCall_start rt tools strict tc ms st = (tk, ms1, st1) \<Longrightarrow> trace st1 = trace st"
  by (auto simp: toolCall_start_def Let_def split: option.splits sum.splits if_splits prod.splits
           dest: trace_execute_tool)

lemma trace_toolCallPromises:
  "toolCallPromises rt tools strict tcs ms st = (tks, ms1, st1) \<Longrightarrow> trace st1 = trace st"
proof (induction tcs arbitrary: ms st tks ms1 st1)
  case Nil
  then show ?case by simp
next
  case (Cons tc tcs)
  then show ?case
    by (auto split: prod.splits dest!: trace_toolCall_start)
qed

lemma trace_toolCall_settle: "trace (snd (toolCall_settle rt np acc)) = trace (snd acc)"
  by (auto simp: toolCall_settle_def split: prod.splits settled.splits)

lemma trace_fold_settle: "trace (snd (fold (toolCall_settle rt) ps acc)) = trace (snd acc)"
  by (induction ps arbitrary: acc) (auto simp: trace_toolCall_settle)

lemma trace_Promise_all: "Promise_all rt tks ms st = (r, st1) \<Longrightarrow> trace st1 = trace st"
  using trace_fold_settle [of rt "settle_order (awaiting tks)" "(ms, st)"]
  by (auto simp: Promise_all_def split: option.splits prod.splits)

lemma trace_rethrow: "rethrow e st = (r, st1) \<Longrightarrow> trace st1 = trace st"
  by (auto simp: rethrow_def)

section \<open>The loop as rounds\<close>

text \<open>
  The loop is a round followed by the recursive call or by the final call. What is stated
  below of the first round of \<open>runAndProcessToolCall\<close>, for any messages, budget and
  state, holds of every round: a later round is the first round of the recursive call.
\<close>

lemma run_unfold:
  "runAndProcessToolCall rt c messages N st =
     (case tool_round rt c messages st of
        (Inl e, st3) \<Rightarrow> rethrow e st3
      | (Inr (tool_calls, messages2), st3) \<Rightarrow>
          if N > 0 \<and> tool_calls \<noteq> [] then
            (case runAndProcessToolCall rt c messages2 (N - 1) st3 of
               (Inl e, st4) \<Rightarrow> rethrow e st4
             | (Inr out, st4) \<Rightarrow> (Inr out, st4))
          else final_call c messages2 st3)"
  by (subst runAndProcessToolCall.simps)
     (auto simp: tool_round_def final_call_def tools_request_def final_request_def Let_def
           split: prod.splits sum.splits)

lemma tool_round_trace:
  assumes "tool_round rt c messages st = (r, st3)"
  shows "trace st3 = trace st @ [(tools_request c messages,
            fst (c_ai c (tools_request c messages) (world st)))]"
  using assms
  by (auto simp: tool_round_def ai_run_eq split: prod.splits sum.splits
           dest!: trace_toolCallPromises trace_Promise_all)

lemma final_call_trace:
  assumes "final_call c messages st = (r, st1)"
  shows "trace st1 = trace st @ [(final_request c messages,
            fst (c_ai c (final_request c messages) (world st)))]"
  using assms
  by (auto simp: final_call_def ai_run_eq rethrow_def split: prod.splits sum.splits)

lemma tool_rounds_simps [simp]:
  "tool_rounds [] = 0"
  "tool_rounds (xs @ ys) = tool_rounds xs + tool_rounds ys"
  "tool_rounds (x # xs) = (if offers_tools (fst x) then 1 else 0) + tool_rounds xs"
  by (simp_all add: tool_rounds_def)

lemma offers_tools_simps [simp]:
  "offers_tools (tools_request c ms)" "\<not> offers_tools (final_request c ms)"
  by (simp_all add: offers_tools_def tools_request_def final_request_def)

lemma run_tool_rounds:
  "\<exists>new. trace (snd (runAndProcessToolCall rt c ms N st)) = trace st @ new \<and>
         tool_rounds new \<le> nat N + 1"
proof (induction n \<equiv> "nat N" arbitrary: N ms st)
  case 0
  obtain r st3 where a: "tool_round rt c ms st = (r, st3)" by (cases "tool_round rt c ms st")
  note t = tool_round_trace [OF a]
  show ?case
  proof (cases r)
    case (Inl e)
    then show ?thesis using a t by (subst run_unfold) (simp add: rethrow_def)
  next
    case (Inr p)
    obtain tcs ms2 where p: "p = (tcs, ms2)" by (cases p)
    obtain r4 st4 where b: "final_call c ms2 st3 = (r4, st4)" by (cases "final_call c ms2 st3")
    show ?thesis using a t Inr p 0 b final_call_trace [OF b]
      by (subst run_unfold) simp
  qed
next
  case (Suc n)
  obtain r st3 where a: "tool_round rt c ms st = (r, st3)" by (cases "tool_round rt c ms st")
  note t = tool_round_trace [OF a]
  show ?case
  proof (cases r)
    case (Inl e)
    then show ?thesis using a t by (subst run_unfold) (simp add: rethrow_def)
  next
    case (Inr p)
    obtain tcs ms2 where p: "p = (tcs, ms2)" by (cases p)
    show ?thesis
    proof (cases "tcs = []")
      case True
      obtain r4 st4 where b: "final_call c ms2 st3 = (r4, st4)" by (cases "final_call c ms2 st3")
      show ?thesis using a t Inr p True b final_call_trace [OF b]
        by (subst run_unfold) simp
    next
      case False
      have n: "n = nat (N - 1)" and pos: "N > 0" using Suc(2) by auto
      obtain r5 st5 where b: "runAndProcessToolCall rt c ms2 (N - 1) st3 = (r5, st5)"
        by (cases "runAndProcessToolCall rt c ms2 (N - 1) st3")
      from Suc(1) [OF n, of ms2 st3] b
      obtain new where new: "trace st5 = trace st3 @ new" "tool_rounds new \<le> nat (N - 1) + 1"
        by auto
      have "trace (snd (runAndProcessToolCall rt c ms N st)) = trace st3 @ new"
        using a Inr p False pos b new(1)
        by (subst run_unfold) (simp add: rethrow_def split: sum.splits)
      then show ?thesis using t new(2) pos
        by (intro exI [of _ "(tools_request c ms, fst (c_ai c (tools_request c ms) (world st))) # new"])
           simp
    qed
  qed
qed

text \<open>\<open>runWithTools\<close> is the trim function, then the loop, then the wrapping of an error.\<close>

lemma runWithTools_loop:
  assumes "(case trimFunction config of None \<Rightarrow> default_trimFunction | Some f \<Rightarrow> f)
             (in_tools input) ai model (in_messages input) st = (Inr chosenTools, st1)"
  shows "runWithTools rt ai model input config st =
           (case runAndProcessToolCall rt (run_closure ai model input config chosenTools)
                   (in_messages input)
                   (case maxRecursiveToolRuns config of None \<Rightarrow> 0 | Some n \<Rightarrow> n)
                   (Logger_info ''Starting runWithTools process'' st1) of
              (Inl e, st2) \<Rightarrow>
                (Inl (JsError (''Error in runWithTools: '' @ error_message e)),
                 Logger_error ''Error in runWithTools:'' st2)
            | (Inr result, st2) \<Rightarrow>
                (Inr result, Logger_info ''runWithTools process completed'' st2))"
  using assms by (simp add: runWithTools_def run_closure_def Let_def)

section \<open>The turns a round appends\<close>

lemma toolCall_start_messages:
  "toolCall_start rt tools strict tc ms st = (tk, ms1, st1) \<Longrightarrow> ms1 = ms @ [request_turn rt tc]"
  by (auto simp: toolCall_start_def request_turn_def Let_def
           split: option.splits sum.splits if_splits prod.splits)

lemma toolCallPromises_messages:
  "toolCallPromises rt tools strict tcs ms st = (tks, ms1, st1)
     \<Longrightarrow> ms1 = ms @ map (request_turn rt) tcs"
proof (induction tcs arbitrary: ms st tks ms1 st1)
  case Nil
  then show ?case by simp
next
  case (Cons tc tcs)
  obtain tk msa sta where a: "toolCall_start rt tools strict tc ms st = (tk, msa, sta)"
    using prod_cases3 by blast
  obtain tks' msb stb where b: "toolCallPromises rt tools strict tcs msa sta = (tks', msb, stb)"
    using prod_cases3 by blast
  from Cons.prems a b have "ms1 = msb" by simp
  with Cons.IH [OF b] toolCall_start_messages [OF a] show ?case by simp
qed

lemma toolCall_settle_messages:
  "fst (toolCall_settle rt np (ms, st)) = ms @ [result_turn rt np]"
  by (cases np) (simp add: toolCall_settle_def result_turn_def split: settled.splits)

lemma fold_settle_messages:
  "fst (fold (toolCall_settle rt) ps (ms, st)) = ms @ map (result_turn rt) ps"
proof (induction ps arbitrary: ms st)
  case Nil
  then show ?case by simp
next
  case (Cons np ps)
  obtain ms' st' where a: "toolCall_settle rt np (ms, st) = (ms', st')"
    by (cases "toolCall_settle rt np (ms, st)")
  have "ms' = ms @ [result_turn rt np]"
    using toolCall_settle_messages [of rt np ms st] a by simp
  with Cons.IH [of ms' st'] a show ?case by simp
qed

lemma Promise_all_Inr:
  "Promise_all rt tks ms st = (Inr ms1, st1) \<Longrightarrow>
     first_rejection tks = None \<and> ms1 = ms @ map (result_turn rt) (settle_order (awaiting tks))"
  using fold_settle_messages [of rt "settle_order (awaiting tks)" ms st]
  by (auto simp: Promise_all_def split: option.splits prod.splits)

lemma Promise_all_no_rejection:
  "first_rejection tks = None \<Longrightarrow> \<exists>ms1 st1. Promise_all rt tks ms st = (Inr ms1, st1)"
  by (auto simp: Promise_all_def split: prod.splits)

lemma Promise_all_Inl:
  "Promise_all rt tks ms st = (Inl e, st1) \<Longrightarrow> first_rejection tks = Some e"
  by (auto simp: Promise_all_def split: option.splits prod.splits)

lemma toolCallPromises_tasks:
  "toolCallPromises rt tools strict tcs ms st = (tks, ms1, st1)
     \<Longrightarrow> list_all2 (\<lambda>tc tk. \<exists>ms' st'. tk = fst (toolCall_start rt tools strict tc ms' st')) tcs tks"
proof (induction tcs arbitrary: ms st tks ms1 st1)
  case Nil
  then show ?case by simp
next
  case (Cons tc tcs)
  obtain tk msa sta where a: "toolCall_start rt tools strict tc ms st = (tk, msa, sta)"
    using prod_cases3 by blast
  obtain tks' msb stb where b: "toolCallPromises rt tools strict tcs msa sta = (tks', msb, stb)"
    using prod_cases3 by blast
  from Cons.prems a b have tks: "tks = tk # tks'" by simp
  have "\<exists>ms' st'. tk = fst (toolCall_start rt tools strict tc ms' st')"
    using a by (intro exI [of _ ms] exI [of _ st]) simp
  with Cons.IH [OF b] tks show ?case by simp
qed

lemma tool_round_Inr:
  assumes "tool_round rt c ms st = (Inr (tcs, ms2), st3)"
  shows "\<exists>response tks.
           fst (c_ai c (tools_request c ms) (world st)) = Inr response \<and>
           tcs = requested_tool_calls response \<and>
           list_all2 (\<lambda>tc tk. \<exists>ms' st'. tk = fst (toolCall_start rt (c_input_tools c)
                                   (c_strictValidation c) tc ms' (st' :: 'w run_state))) tcs tks \<and>
           first_rejection tks = None \<and>
           ms2 = ms @ map (request_turn rt) tcs @ map (result_turn rt) (settle_order (awaiting tks))"
proof -
  obtain r1 st1 where a1:
    "ai_run (c_ai c) (tools_request c ms) (Logger_info ''Starting AI.run call'' st) = (r1, st1)"
    by (cases "ai_run (c_ai c) (tools_request c ms) (Logger_info ''Starting AI.run call'' st)")
  have r1: "r1 = fst (c_ai c (tools_request c ms) (world st))"
    using a1 by (simp add: ai_run_eq)
  from assms a1 obtain response where resp: "r1 = Inr response"
    by (cases r1) (auto simp: tool_round_def)
  obtain tks ms1 st2 where a2:
    "toolCallPromises rt (c_input_tools c) (c_strictValidation c) (requested_tool_calls response)
       ms (Logger_info ''AI.run call completed'' st1) = (tks, ms1, st2)"
    using prod_cases3 by blast
  from assms a1 resp a2 have a3: "Promise_all rt tks ms1 st2 = (Inr ms2, st3)"
    and tcs: "tcs = requested_tool_calls response"
    by (auto simp: tool_round_def split: prod.splits sum.splits)
  show ?thesis
    using r1 resp tcs toolCallPromises_tasks [OF a2] toolCallPromises_messages [OF a2]
      Promise_all_Inr [OF a3]
    by (intro exI [of _ response] exI [of _ tks]) simp
qed

section \<open>Runs that complete\<close>

lemma find_in_set: "find P xs = Some x \<Longrightarrow> x \<in> set xs \<and> P x"
  by (induction xs) (auto split: if_splits)

lemma toolCall_start_Threw:
  "toolCall_start rt tools strict tc ms st = (Threw e, ms1, st1) \<Longrightarrow>
     strict \<and> (\<exists>t ps. t \<in> set tools \<and> tool_parameters t = Some ps \<and>
                 convert_properties (prm_properties ps) = Inl e)"
  by (auto simp: toolCall_start_def execute_tool_def validateArgsWithZod_def Let_def
           split: option.splits sum.splits if_splits prod.splits dest: find_in_set)

lemma toolCall_start_no_Threw:
  assumes "\<not> strict \<or> schemas_convert tools"
  shows "fst (toolCall_start rt tools strict tc ms st) \<noteq> Threw e"
proof
  assume a: "fst (toolCall_start rt tools strict tc ms st) = Threw e"
  obtain ms1 st1 where "toolCall_start rt tools strict tc ms st = (Threw e, ms1, st1)"
    using a by (cases "toolCall_start rt tools strict tc ms st") simp
  from toolCall_start_Threw [OF this] obtain t ps where
    "strict" "t \<in> set tools" "tool_parameters t = Some ps"
    "convert_properties (prm_properties ps) = Inl e"
    by blast
  with assms show False
    by (auto simp: schemas_convert_def list_all_iff split: option.splits sum.splits)
qed

lemma first_rejection_None:
  "(\<And>e. Threw e \<notin> set tks) \<Longrightarrow> first_rejection tks = None"
  by (induction tks rule: first_rejection.induct) auto

lemma list_all2_set2: "list_all2 P xs ys \<Longrightarrow> y \<in> set ys \<Longrightarrow> \<exists>x \<in> set xs. P x y"
  by (induction rule: list_all2_induct) auto

lemma toolCallPromises_no_rejection:
  assumes "\<not> strict \<or> schemas_convert tools"
    and "toolCallPromises rt tools strict tcs ms st = (tks, ms1, st1)"
  shows "first_rejection tks = None"
proof (rule first_rejection_None)
  fix e
  show "Threw e \<notin> set tks"
  proof
    assume "Threw e \<in> set tks"
    from list_all2_set2 [OF toolCallPromises_tasks [OF assms(2)] this]
    obtain tc ms' st' where "Threw e = fst (toolCall_start rt tools strict tc ms' st')"
      by blast
    with toolCall_start_no_Threw [OF assms(1)] show False by metis
  qed
qed

lemma tool_round_succeeds:
  assumes "never_throws (c_ai c)"
    and "\<not> c_strictValidation c \<or> schemas_convert (c_input_tools c)"
  shows "\<exists>tcs ms2 st3. tool_round rt c ms st = (Inr (tcs, ms2), st3)"
proof -
  obtain response where resp: "fst (c_ai c (tools_request c ms) (world st)) = Inr response"
    using assms(1) unfolding never_throws_def by blast
  obtain st1 where a1:
    "ai_run (c_ai c) (tools_request c ms) (Logger_info ''Starting AI.run call'' st) = (Inr response, st1)"
    using resp by (simp add: ai_run_eq)
  obtain tks ms1 st2 where a2:
    "toolCallPromises rt (c_input_tools c) (c_strictValidation c) (requested_tool_calls response)
       ms (Logger_info ''AI.run call completed'' st1) = (tks, ms1, st2)"
    using prod_cases3 by blast
  from Promise_all_no_rejection [OF toolCallPromises_no_rejection [OF assms(2) a2]]
  obtain ms2 st3 where a3: "Promise_all rt tks ms1 st2 = (Inr ms2, st3)" by blast
  show ?thesis using a1 a2 a3 by (simp add: tool_round_def)
qed

lemma final_call_succeeds:
  assumes "never_throws (c_ai c)"
  shows "\<exists>out st1. final_call c ms st = (Inr out, st1)"
proof -
  obtain out where "fst (c_ai c (final_request c ms) (world st)) = Inr out"
    using assms unfolding never_throws_def by blast
  then show ?thesis by (simp add: final_call_def ai_run_eq)
qed

lemma run_completes:
  assumes "never_throws (c_ai c)"
    and "\<not> c_strictValidation c \<or> schemas_convert (c_input_tools c)"
  shows "\<exists>out st'. runAndProcessToolCall rt c ms N st = (Inr out, st')"
proof (induction n \<equiv> "nat N" arbitrary: N ms st)
  case 0
  obtain tcs ms2 st3 where a: "tool_round rt c ms st = (Inr (tcs, ms2), st3)"
    using tool_round_succeeds [OF assms] by blast
  have "runAndProcessToolCall rt c ms N st = final_call c ms2 st3"
    using a 0 by (subst run_unfold) simp
  then show ?case using final_call_succeeds [OF assms(1)] by simp
next
  case (Suc n)
  obtain tcs ms2 st3 where a: "tool_round rt c ms st = (Inr (tcs, ms2), st3)"
    using tool_round_succeeds [OF assms] by blast
  have n: "n = nat (N - 1)" and pos: "N > 0" using Suc(2) by auto
  show ?case
  proof (cases "tcs = []")
    case True
    have "runAndProcessToolCall rt c ms N st = final_call c ms2 st3"
      using a True by (subst run_unfold) simp
    then show ?thesis using final_call_succeeds [OF assms(1)] by simp
  next
    case False
    obtain out st5 where b: "runAndProcessToolCall rt c ms2 (N - 1) st3 = (Inr out, st5)"
      using Suc(1) [OF n] by blast
    have "runAndProcessToolCall rt c ms N st = (Inr out, st5)"
      using a False b pos by (subst run_unfold) simp
    then show ?thesis by blast
  qed
qed

section \<open>Recursion bound\<close>

lemma dispatch_le_tool_rounds: "dispatch_rounds tr \<le> tool_rounds tr"
  unfolding dispatch_rounds_def tool_rounds_def
  by (induction tr) (auto simp: dispatch_round_def)

lemma dispatch_rounds_simps [simp]:
  "dispatch_rounds [] = 0"
  "dispatch_rounds (xs @ ys) = dispatch_rounds xs + dispatch_rounds ys"
  "dispatch_rounds (x # xs) = (if dispatch_round x then 1 else 0) + dispatch_rounds xs"
  by (simp_all add: dispatch_rounds_def)

lemma run_eager:
  assumes eager: "\<forall>req w. offers_tools req \<longrightarrow>
            (\<exists>response. fst (c_ai c req w) = Inr response \<and> requested_tool_calls response \<noteq> [])"
  shows "runAndProcessToolCall rt c ms N st = (Inr out, st') \<Longrightarrow>
         \<exists>rounds fin. trace st' = trace st @ rounds @ [fin] \<and> dispatch_rounds rounds = nat N + 1 \<and>
           \<not> dispatch_round fin \<and> \<not> offers_tools (fst fin) \<and> snd fin = Inr out"
proof (induction n \<equiv> "nat N" arbitrary: N ms st)
  case 0
  obtain r st3 where a: "tool_round rt c ms st = (r, st3)" by (cases "tool_round rt c ms st")
  note t = tool_round_trace [OF a]
  from eager obtain response where resp:
    "fst (c_ai c (tools_request c ms) (world st)) = Inr response" "requested_tool_calls response \<noteq> []"
    using offers_tools_simps(1) by blast
  show ?case
  proof (cases r)
    case (Inl e)
    have "runAndProcessToolCall rt c ms N st = rethrow e st3"
      using a Inl by (subst run_unfold) simp
    then show ?thesis using "0.prems" by (simp add: rethrow_def)
  next
    case (Inr p)
    obtain tcs ms2 where p: "p = (tcs, ms2)" by (cases p)
    obtain r4 st4 where b: "final_call c ms2 st3 = (r4, st4)" by (cases "final_call c ms2 st3")
    have "runAndProcessToolCall rt c ms N st = final_call c ms2 st3"
      using a Inr p 0(1) by (subst run_unfold) simp
    then have "r4 = Inr out" "st4 = st'"
      using b "0.prems" by simp_all
    moreover have "r4 = Inr out \<Longrightarrow> fst (c_ai c (final_request c ms2) (world st3)) = Inr out"
      using b by (auto simp: final_call_def ai_run_eq rethrow_def split: sum.splits)
    ultimately show ?thesis
      using t resp final_call_trace [OF b] 0(1)
      by (intro exI [of _ "[(tools_request c ms, Inr response)]"]
                exI [of _ "(final_request c ms2, Inr out)"])
         (simp add: dispatch_round_def)
  qed
next
  case (Suc n)
  obtain r st3 where a: "tool_round rt c ms st = (r, st3)" by (cases "tool_round rt c ms st")
  note t = tool_round_trace [OF a]
  from eager obtain response where resp:
    "fst (c_ai c (tools_request c ms) (world st)) = Inr response" "requested_tool_calls response \<noteq> []"
    using offers_tools_simps(1) by blast
  have n: "n = nat (N - 1)" and pos: "N > 0" using Suc(2) by auto
  show ?case
  proof (cases r)
    case (Inl e)
    have "runAndProcessToolCall rt c ms N st = rethrow e st3"
      using a Inl by (subst run_unfold) simp
    then show ?thesis using Suc.prems by (simp add: rethrow_def)
  next
    case (Inr p)
    obtain tcs ms2 where p: "p = (tcs, ms2)" by (cases p)
    have tcs: "tcs \<noteq> []"
      using tool_round_Inr [OF a [unfolded Inr p]] resp by auto
    obtain r5 st5 where b: "runAndProcessToolCall rt c ms2 (N - 1) st3 = (r5, st5)"
      by (cases "runAndProcessToolCall rt c ms2 (N - 1) st3")
    have "runAndProcessToolCall rt c ms N st =
            (case r5 of Inl e \<Rightarrow> rethrow e st5 | Inr out \<Rightarrow> (Inr out, st5))"
      using a Inr p tcs pos b by (subst run_unfold) (simp split: sum.splits)
    then have "r5 = Inr out \<and> st5 = st'"
      using Suc.prems by (simp add: rethrow_def split: sum.splits)
    with Suc(1) [OF n, of ms2 st3] b
    obtain rounds fin where rf: "trace st' = trace st3 @ rounds @ [fin]"
      "dispatch_rounds rounds = nat (N - 1) + 1" "\<not> dispatch_round fin"
      "\<not> offers_tools (fst fin)" "snd fin = Inr out"
      by auto
    show ?thesis
      using t resp rf pos
      by (intro exI [of _ "(tools_request c ms, Inr response) # rounds"] exI [of _ fin])
         (simp add: dispatch_round_def)
  qed
qed

text \<open>
  C1, amended. With \<open>maxRecursiveToolRuns = N\<close> the loop performs at most \<open>N + 1\<close>
  tool-dispatch rounds: the first round and at most \<open>N\<close> recursive ones (for a negative
  \<open>N\<close>, one round). Against a model endpoint that answers every call that offers tools
  with at least one tool call, a run that returns has performed exactly \<open>N + 1\<close>
  tool-dispatch rounds, and its last call is the one without tools, whose output it
  returns.
\<close>

theorem recursion_bound:
  "\<exists>new. trace (snd (runAndProcessToolCall rt c messages N st)) = trace st @ new \<and>
         dispatch_rounds new \<le> nat N + 1 \<and>
         ((\<forall>req w. offers_tools req \<longrightarrow>
             (\<exists>response. fst (c_ai c req w) = Inr response \<and>
                         requested_tool_calls response \<noteq> [])) \<longrightarrow>
          (\<forall>out. fst (runAndProcessToolCall rt c messages N st) = Inr out \<longrightarrow>
             dispatch_rounds new = nat N + 1 \<and> new \<noteq> [] \<and>
             \<not> offers_tools (fst (last new)) \<and> snd (last new) = Inr out))"
proof -
  obtain new where new: "trace (snd (runAndProcessToolCall rt c messages N st)) = trace st @ new"
    "tool_rounds new \<le> nat N + 1"
    using run_tool_rounds by blast
  have bound: "dispatch_rounds new \<le> nat N + 1"
    using new(2) dispatch_le_tool_rounds [of new] by simp
  have exact: "dispatch_rounds new = nat N + 1 \<and> new \<noteq> [] \<and>
               \<not> offers_tools (fst (last new)) \<and> snd (last new) = Inr out"
    if eager: "\<forall>req w. offers_tools req \<longrightarrow>
             (\<exists>response. fst (c_ai c req w) = Inr response \<and>
                         requested_tool_calls response \<noteq> [])"
      and ok: "fst (runAndProcessToolCall rt c messages N st) = Inr out" for out
  proof -
    obtain st' where r: "runAndProcessToolCall rt c messages N st = (Inr out, st')"
      using ok by (cases "runAndProcessToolCall rt c messages N st") simp
    from run_eager [OF eager r] obtain rounds fin where
      rf: "trace st' = trace st @ rounds @ [fin]" "dispatch_rounds rounds = nat N + 1"
        "\<not> dispatch_round fin" "\<not> offers_tools (fst fin)" "snd fin = Inr out"
      by blast
    from rf(1) new(1) r have "new = rounds @ [fin]" by simp
    with rf show ?thesis by simp
  qed
  show ?thesis
    using new(1) bound exact by blast
qed

text \<open>
  The claim as stated, "never more than \<open>N\<close> rounds", fails for \<open>N = 0\<close>, the
  default: the tool call of the first answer is dispatched before the final call.
\<close>

theorem recursion_bound_counterexample:
  "\<not> (dispatch_rounds
        (trace (snd (runAndProcessToolCall sample_runtime eager_closure question 0 (start_state 0))))
      \<le> nat 0)"
  by code_simp

theorem recursion_bound_witness:
  "dispatch_rounds
     (trace (snd (runAndProcessToolCall sample_runtime eager_closure question 2 (start_state 0))))
   = 3"
proof -
  have eager: "\<forall>req w. offers_tools req \<longrightarrow>
      (\<exists>response. fst (c_ai eager_closure req w) = Inr response \<and>
                  requested_tool_calls response \<noteq> [])"
    by (auto simp: eager_closure_def eager_ai_def offers_tools_def requested_tool_calls_def
             split: option.splits)
  have "never_throws (c_ai eager_closure)"
    by (auto simp: never_throws_def eager_closure_def eager_ai_def split: option.splits)
  moreover have "\<not> c_strictValidation eager_closure"
    by (simp add: eager_closure_def)
  ultimately obtain out st' where
    ok: "runAndProcessToolCall sample_runtime eager_closure question 2 (start_state 0) = (Inr out, st')"
    using run_completes by blast
  from recursion_bound [of sample_runtime eager_closure question 2 "start_state 0"] eager ok
  show ?thesis
    by (auto simp: start_state_def)
qed

section \<open>Argument validator\<close>

text \<open>
  C9. The claim says that \<open>validateArgsWithZod\<close> never throws when every declared
  type is one of the six supported ones. An array schema that declares no \<open>items\<close>
  declares only the supported type \<open>array\<close>, yet building its validator reads
  \<open>schema.type\<close> of \<open>undefined\<close>: a \<open>TypeError\<close> leaves
  \<open>validateArgsWithZod\<close>, whatever the arguments are.
\<close>

theorem validateArgsWithZod_array_without_items:
  "validateArgsWithZod parse args [(''tags'', Schema (Some ''array'') None None)]
     = Inl (cannot_read ''undefined'' ''type'')"
  by (simp add: validateArgsWithZod_def)

text \<open>
  What holds of the claim: when every array declares its items, \<open>validateArgsWithZod\<close>
  returns a boolean; and a type outside the six makes the construction of the schema throw
  the unsupported-type error (here for the first property; a later one is reached when the
  earlier ones convert).
\<close>

lemma supported_converts:
  "(\<forall>s. so = Some s \<longrightarrow> supported s) \<longrightarrow> so \<noteq> None \<longrightarrow> (\<exists>z. convertToZodSchema so = Inr z)"
  "list_all (\<lambda>kv. supported (snd kv)) ps \<longrightarrow> (\<exists>shape. convert_properties ps = Inr shape)"
proof (induction so and ps rule: convertToZodSchema_convert_properties.induct)
  case 1
  then show ?case by simp
next
  case (2 t items props)
  then show ?case
    by (auto split: option.splits sum.splits)
next
  case 3
  then show ?case by simp
next
  case (4 key s rest)
  then show ?case by (auto split: sum.splits)
qed

lemma validateArgsWithZod_returns:
  assumes "list_all (\<lambda>kv. supported (snd kv)) properties"
  shows "\<exists>b. validateArgsWithZod parse args properties = Inr b"
  using supported_converts(2) [of properties] assms
  by (auto simp: validateArgsWithZod_def)

lemma convertToZodSchema_unsupported:
  assumes "t \<notin> {Some ''string'', Some ''number'', Some ''integer'', Some ''boolean'',
                 Some ''array'', Some ''object''}"
  shows "convertToZodSchema (Some (Schema t items props)) = Inl (unsupported_schema_type t)"
  using assms by simp

lemma validateArgsWithZod_unsupported_first:
  assumes "t \<notin> {Some ''string'', Some ''number'', Some ''integer'', Some ''boolean'',
                 Some ''array'', Some ''object''}"
  shows "validateArgsWithZod parse args ((key, Schema t items props) # rest)
           = Inl (unsupported_schema_type t)"
  using assms by (simp add: validateArgsWithZod_def)

section \<open>Tool selector\<close>

text \<open>
  C7. With five candidate tools and an answer whose tool call carries no \<open>arguments\<close>
  (a malformed tool call), \<open>autoTrimTools\<close> does not pass the candidates through: reading
  \<open>arguments.tools\<close> throws a \<open>TypeError\<close>.
\<close>

theorem autoTrimTools_call_without_arguments:
  "fst (autoTrimTools sample_runtime five_tools scripted_ai ''sample-model'' question
          (start_state [Inr chooseTool_without_arguments]))
     = Inl (cannot_read ''undefined'' ''tools'')"
  by (simp add: autoTrimTools_def five_tools_def ai_run_eq scripted_ai_def start_state_def
        chooseTool_without_arguments_def)

text \<open>The two other parts of the claim hold: the threshold, and the single extra call.\<close>

lemma autoTrimTools_few:
  "length tools < 5 \<Longrightarrow>
   autoTrimTools rt tools ai model messages st =
     (Inr tools,
      Logger_error ''autoTrimTools is only supported for tasks with more than 4 tools'' st)"
  by (simp add: autoTrimTools_def)

lemma autoTrimTools_one_call:
  assumes "5 \<le> length tools"
  shows "trace (snd (autoTrimTools rt tools ai model messages st)) =
           trace st @ [(chooseTool_request rt tools model messages,
                        fst (ai (chooseTool_request rt tools model messages) (world st)))]"
proof -
  let ?req = "chooseTool_request rt tools model messages"
  obtain r st1 where a: "ai_run ai ?req st = (r, st1)" by (cases "ai_run ai ?req st")
  have t: "trace st1 = trace st @ [(?req, fst (ai ?req (world st)))]"
    using a by (auto simp: ai_run_eq)
  have pick: "trace (snd (case get_property v ''tools'' of
                 Inl e \<Rightarrow> (Inl e, st1)
               | Inr (JArray names) \<Rightarrow> (Inr (f names), Logger_info ''Chosen tools'' st1)
               | Inr other \<Rightarrow> (Inr tools, Logger_info ''Chosen tools'' st1))) = trace st1"
    for v and f :: "json list \<Rightarrow> 'a tool list"
    by (cases "get_property v ''tools''") (auto split: json.splits)
  have "trace (snd (autoTrimTools rt tools ai model messages st)) = trace st1"
    using assms a pick
    by (simp add: autoTrimTools_def chooseTool_request_def
             split: sum.splits option.splits list.splits)
  with t show ?thesis by simp
qed

text \<open>
  With five tools or more: an answer without tool calls passes the candidates through, an
  array of names filters them, and a \<open>tools\<close> argument that is no array passes them
  through.
\<close>

lemma autoTrimTools_no_tool_call:
  assumes "5 \<le> length tools"
    and "ai (chooseTool_request rt tools model messages) (world st) = (Inr response, w1)"
    and "requested_tool_calls response = []"
  shows "fst (autoTrimTools rt tools ai model messages st) = Inr tools"
  using assms
  by (auto simp: autoTrimTools_def ai_run_eq chooseTool_request_def requested_tool_calls_def
           split: option.splits list.splits)

lemma autoTrimTools_filters:
  assumes "5 \<le> length tools"
    and "ai (chooseTool_request rt tools model messages) (world st) = (Inr response, w1)"
    and "requested_tool_calls response = chosen # others"
    and "get_property (call_arguments chosen) ''tools'' = Inr (JArray names)"
  shows "fst (autoTrimTools rt tools ai model messages st) =
           Inr (filter (\<lambda>tool. JString (tool_name tool) \<in> set names) tools)"
  using assms
  by (auto simp: autoTrimTools_def ai_run_eq chooseTool_request_def requested_tool_calls_def
           split: option.splits list.splits)

lemma autoTrimTools_not_an_array:
  assumes "5 \<le> length tools"
    and "ai (chooseTool_request rt tools model messages) (world st) = (Inr response, w1)"
    and "requested_tool_calls response = chosen # others"
    and "get_property (call_arguments chosen) ''tools'' = Inr v" and "\<forall>names. v \<noteq> JArray names"
  shows "fst (autoTrimTools rt tools ai model messages st) = Inr tools"
  using assms
  by (cases v)
     (auto simp: autoTrimTools_def ai_run_eq chooseTool_request_def requested_tool_calls_def
           split: option.splits list.splits)

section \<open>Flat arguments of an OpenAPI invoker\<close>

text \<open>
  C10. The guard of \<open>args.query = args\<close> tests \<open>header\<close>, \<open>query\<close>,
  \<open>cookie\<close>, \<open>formData\<close> and \<open>body\<close>, and not \<open>path\<close>: arguments that hold
  only the recognised sub-key \<open>path\<close> are taken as query parameters all the same, and
  the request gets the query parameters \<open>path\<close> and \<open>query\<close>.
\<close>

theorem createToolFunction_path_only_taken_as_query:
  "args_taken_as_query [(''path'', JObject [(''username'', JString ''joe'')])] \<and>
   args_queryParams [(''path'', JObject [(''username'', JString ''joe'')])]
     = [(''path'', Of (JObject [(''username'', JString ''joe'')])), (''query'', Args_itself)]"
  by (simp add: args_taken_as_query_def args_queryParams_def query_set_to_args_def
        Object_keys_def property_def)

text \<open>The first half of the claim holds: with none of the six sub-keys, the arguments are taken as the query.\<close>

lemma args_without_sub_keys_taken_as_query:
  assumes "args \<noteq> []"
    and "\<forall>k \<in> {''path'', ''query'', ''header'', ''cookie'', ''formData'', ''body''}. k \<notin> fst ` set args"
  shows "args_taken_as_query args"
proof -
  have "map_of args k = None" if "k \<notin> fst ` set args" for k
    using that by (simp add: map_of_eq_None_iff)
  with assms show ?thesis
    by (simp add: args_taken_as_query_def property_def Object_keys_def)
qed

section \<open>A first answer without tool calls\<close>

lemma tool_round_no_tool_calls:
  assumes "c_ai c (tools_request c ms) (world st) = (Inr response, w1)"
    and "requested_tool_calls response = []"
  shows "\<exists>st3. tool_round rt c ms st = (Inr ([], ms), st3) \<and> world st3 = w1 \<and>
               trace st3 = trace st @ [(tools_request c ms, Inr response)]"
  using assms
  by (simp add: tool_round_def ai_run_eq Promise_all_def settle_order_def)

lemma run_no_tool_calls:
  assumes "c_ai c (tools_request c ms) (world st) = (Inr response, w1)"
    and "requested_tool_calls response = []"
    and "c_ai c (final_request c ms) w1 = (r2, w2)"
  shows "fst (runAndProcessToolCall rt c ms N st) =
           (case r2 of Inl e \<Rightarrow> Inl (JsError (''Error in runAndProcessToolCall: '' @ error_message e))
                     | Inr out \<Rightarrow> Inr out) \<and>
         trace (snd (runAndProcessToolCall rt c ms N st)) =
           trace st @ [(tools_request c ms, Inr response), (final_request c ms, r2)]"
proof -
  obtain st3 where a: "tool_round rt c ms st = (Inr ([], ms), st3)" "world st3 = w1"
    "trace st3 = trace st @ [(tools_request c ms, Inr response)]"
    using tool_round_no_tool_calls [OF assms(1,2)] by blast
  have "runAndProcessToolCall rt c ms N st = final_call c ms st3"
    using a(1) by (subst run_unfold) simp
  then show ?thesis
    using a(2,3) assms(3)
    by (simp add: final_call_def ai_run_eq rethrow_def split: sum.splits)
qed

text \<open>
  C2. With the default tool selector, when the first answer of the model endpoint holds no
  tool call (\<open>tool_calls\<close> missing or empty), the run makes exactly one more call, with
  the same messages, \<open>tools\<close> omitted and \<open>stream = streamFinalResponse\<close>, and
  returns the output of that call as it is: two model calls in all.
\<close>

theorem no_tool_call_termination:
  assumes "trimFunction config = None"
    and "ai \<lparr>req_model = model, req_messages = in_messages input, req_stream = False,
              req_tools = Some (map offer (in_tools input))\<rparr> (world st) = (Inr response, w1)"
    and "tool_calls_of response = None \<or> tool_calls_of response = Some []"
    and "ai \<lparr>req_model = model, req_messages = in_messages input,
              req_stream = (case streamFinalResponse config of None \<Rightarrow> False | Some b \<Rightarrow> b),
              req_tools = None\<rparr> w1 = (Inr out, w2)"
  shows "fst (runWithTools rt ai model input config st) = Inr out \<and>
         trace (snd (runWithTools rt ai model input config st)) =
           trace st @
           [(\<lparr>req_model = model, req_messages = in_messages input, req_stream = False,
               req_tools = Some (map offer (in_tools input))\<rparr>, Inr response),
            (\<lparr>req_model = model, req_messages = in_messages input,
               req_stream = (case streamFinalResponse config of None \<Rightarrow> False | Some b \<Rightarrow> b),
               req_tools = None\<rparr>, Inr out)]"
proof -
  let ?c = "\<lparr>c_ai = ai, c_model = model, c_input_tools = in_tools input,
             c_tools = map offer (in_tools input),
             c_strictValidation = (case strictValidation config of None \<Rightarrow> False | Some b \<Rightarrow> b),
             c_streamFinalResponse = (case streamFinalResponse config of None \<Rightarrow> False | Some b \<Rightarrow> b)\<rparr>"
  let ?N = "case maxRecursiveToolRuns config of None \<Rightarrow> 0 | Some n \<Rightarrow> n"
  let ?st = "Logger_info ''Starting runWithTools process'' st"
  have none: "requested_tool_calls response = []"
    using assms(3) by (auto simp: requested_tool_calls_def)
  have r: "fst (runAndProcessToolCall rt ?c (in_messages input) ?N ?st) = Inr out \<and>
        trace (snd (runAndProcessToolCall rt ?c (in_messages input) ?N ?st)) =
          trace ?st @ [(tools_request ?c (in_messages input), Inr response),
                       (final_request ?c (in_messages input), Inr out)]"
    using run_no_tool_calls [of ?c "in_messages input" ?st response w1 "Inr out" w2 rt ?N]
      assms(2,4) none
    by (simp add: tools_request_def final_request_def)
  obtain res st2 where run: "runAndProcessToolCall rt ?c (in_messages input) ?N ?st = (res, st2)"
    by (cases "runAndProcessToolCall rt ?c (in_messages input) ?N ?st")
  have "runWithTools rt ai model input config st =
          (Inr out, Logger_info ''runWithTools process completed'' st2)"
    using assms(1) run r
    by (simp add: runWithTools_def default_trimFunction_def Let_def)
  then show ?thesis
    using r run by (simp add: tools_request_def final_request_def)
qed

theorem no_tool_call_termination_witness:
  "fst (runWithTools sample_runtime scripted_ai ''sample-model''
          \<lparr>in_messages = question, in_tools = [getUser]\<rparr> default_config
          (start_state plain_answers))
     = Inr (AiOutput (Some ''X is a user of example.org'') None) \<and>
   length (trace (snd (runWithTools sample_runtime scripted_ai ''sample-model''
          \<lparr>in_messages = question, in_tools = [getUser]\<rparr> default_config
          (start_state plain_answers)))) = 2"
  using no_tool_call_termination [of default_config scripted_ai "''sample-model''"
      "\<lparr>in_messages = question, in_tools = [getUser]\<rparr>" "start_state plain_answers"
      "AiOutput (Some ''I can answer that myself'') None"
      "[Inr (AiOutput (Some ''X is a user of example.org'') None)]"
      "AiOutput (Some ''X is a user of example.org'') None" "[]" sample_runtime]
  by (simp add: default_config_def scripted_ai_def start_state_def plain_answers_def)

section \<open>What the model endpoint is offered\<close>

lemma run_trace_shape:
  "\<exists>new. trace (snd (runAndProcessToolCall rt c ms N st)) = trace st @ new \<and>
         list_all (\<lambda>call. \<exists>ms'. fst call = tools_request c ms' \<or> fst call = final_request c ms') new"
proof (induction n \<equiv> "nat N" arbitrary: N ms st)
  case 0
  obtain r st3 where a: "tool_round rt c ms st = (r, st3)" by (cases "tool_round rt c ms st")
  note t = tool_round_trace [OF a]
  show ?case
  proof (cases r)
    case (Inl e)
    have "runAndProcessToolCall rt c ms N st = rethrow e st3"
      using a Inl by (subst run_unfold) simp
    then show ?thesis using t by (auto simp: rethrow_def)
  next
    case (Inr p)
    obtain tcs ms2 where p: "p = (tcs, ms2)" by (cases p)
    obtain r4 st4 where b: "final_call c ms2 st3 = (r4, st4)" by (cases "final_call c ms2 st3")
    have "runAndProcessToolCall rt c ms N st = final_call c ms2 st3"
      using a Inr p 0 by (subst run_unfold) simp
    then show ?thesis using t b final_call_trace [OF b] by auto
  qed
next
  case (Suc n)
  obtain r st3 where a: "tool_round rt c ms st = (r, st3)" by (cases "tool_round rt c ms st")
  note t = tool_round_trace [OF a]
  have n: "n = nat (N - 1)" and pos: "N > 0" using Suc(2) by auto
  show ?case
  proof (cases r)
    case (Inl e)
    have "runAndProcessToolCall rt c ms N st = rethrow e st3"
      using a Inl by (subst run_unfold) simp
    then show ?thesis using t by (auto simp: rethrow_def)
  next
    case (Inr p)
    obtain tcs ms2 where p: "p = (tcs, ms2)" by (cases p)
    show ?thesis
    proof (cases "tcs = []")
      case True
      obtain r4 st4 where b: "final_call c ms2 st3 = (r4, st4)" by (cases "final_call c ms2 st3")
      have "runAndProcessToolCall rt c ms N st = final_call c ms2 st3"
        using a Inr p True by (subst run_unfold) simp
      then show ?thesis using t b final_call_trace [OF b] by auto
    next
      case False
      obtain r5 st5 where b: "runAndProcessToolCall rt c ms2 (N - 1) st3 = (r5, st5)"
        by (cases "runAndProcessToolCall rt c ms2 (N - 1) st3")
      from Suc(1) [OF n, of ms2 st3] b
      obtain new where new: "trace st5 = trace st3 @ new"
        "list_all (\<lambda>call. \<exists>ms'. fst call = tools_request c ms' \<or> fst call = final_request c ms') new"
        by auto
      have "trace (snd (runAndProcessToolCall rt c ms N st)) = trace st5"
        using a Inr p False pos b
        by (subst run_unfold) (simp add: rethrow_def split: sum.splits)
      then show ?thesis using t new by auto
    qed
  qed
qed

lemma no_invoker_requests:
  "no_invoker (final_request c ms)"
  "c_tools c = map offer chosen \<Longrightarrow> no_invoker (tools_request c ms)"
  "no_invoker (chooseTool_request rt tools model ms)"
  by (simp_all add: no_invoker_def final_request_def tools_request_def chooseTool_request_def
        chooseTools_def offer_def list_all_iff)

text \<open>
  C8. No tool offered to the model endpoint carries an invoker. The list built before the
  trim function runs has the \<open>function\<close> field of every descriptor stripped; every call
  that \<open>runWithTools\<close> makes after the trim function has run offers the rebuilt list,
  stripped in the same way, or no tools at all; and the one call of \<open>autoTrimTools\<close>
  offers only \<open>chooseTool\<close>, which has no invoker.
\<close>

theorem no_invoker_offered:
  "list_all (\<lambda>t. tool_function (offer_function t) = None) (initial_tools input) \<and>
   (\<exists>new. trace (snd (runWithTools rt ai model input config st)) =
            trace (snd ((case trimFunction config of None \<Rightarrow> default_trimFunction | Some f \<Rightarrow> f)
                          (in_tools input) ai model (in_messages input) st)) @ new \<and>
          list_all (\<lambda>call. no_invoker (fst call)) new) \<and>
   (\<exists>new. trace (snd (autoTrimTools rt tools ai model messages st)) = trace st @ new \<and>
          list_all (\<lambda>call. no_invoker (fst call)) new)"
proof (intro conjI)
  show "list_all (\<lambda>t. tool_function (offer_function t) = None) (initial_tools input)"
    by (simp add: initial_tools_def initialtoolsWithoutFunctions_def offer_def list_all_iff)
next
  let ?trim = "case trimFunction config of None \<Rightarrow> default_trimFunction | Some f \<Rightarrow> f"
  obtain r st1 where tr: "?trim (in_tools input) ai model (in_messages input) st = (r, st1)"
    by (cases "?trim (in_tools input) ai model (in_messages input) st")
  show "\<exists>new. trace (snd (runWithTools rt ai model input config st)) =
            trace (snd (?trim (in_tools input) ai model (in_messages input) st)) @ new \<and>
          list_all (\<lambda>call. no_invoker (fst call)) new"
  proof (cases r)
    case (Inl e)
    then have "runWithTools rt ai model input config st = (Inl e, st1)"
      using tr by (simp add: runWithTools_def Let_def)
    then show ?thesis using tr by simp
  next
    case (Inr chosenTools)
    let ?c = "\<lparr>c_ai = ai, c_model = model, c_input_tools = in_tools input,
             c_tools = map offer chosenTools,
             c_strictValidation = (case strictValidation config of None \<Rightarrow> False | Some b \<Rightarrow> b),
             c_streamFinalResponse = (case streamFinalResponse config of None \<Rightarrow> False | Some b \<Rightarrow> b)\<rparr>"
    let ?N = "case maxRecursiveToolRuns config of None \<Rightarrow> 0 | Some n \<Rightarrow> n"
    let ?st = "Logger_info ''Starting runWithTools process'' st1"
    obtain res st2 where run: "runAndProcessToolCall rt ?c (in_messages input) ?N ?st = (res, st2)"
      by (cases "runAndProcessToolCall rt ?c (in_messages input) ?N ?st")
    from run_trace_shape [of rt ?c "in_messages input" ?N ?st] run
    obtain new where new: "trace st2 = trace st1 @ new"
      "list_all (\<lambda>call. \<exists>ms'. fst call = tools_request ?c ms' \<or> fst call = final_request ?c ms') new"
      by auto
    have s1: "no_invoker (tools_request ?c ms')" for ms'
      by (rule no_invoker_requests(2) [where chosen = chosenTools]) simp
    have s2: "no_invoker (final_request ?c ms')" for ms'
      by (rule no_invoker_requests(1))
    have safe: "list_all (\<lambda>call. no_invoker (fst call)) new"
      unfolding list_all_iff
    proof
      fix call assume "call \<in> set new"
      with new(2) obtain ms' where
        "fst call = tools_request ?c ms' \<or> fst call = final_request ?c ms'"
        unfolding list_all_iff by blast
      then show "no_invoker (fst call)" using s1 [of ms'] s2 [of ms'] by auto
    qed
    have "trace (snd (runWithTools rt ai model input config st)) = trace st2"
      using tr Inr run by (simp add: runWithTools_def Let_def split: sum.splits)
    then show ?thesis using tr new(1) safe by auto
  qed
next
  show "\<exists>new. trace (snd (autoTrimTools rt tools ai model messages st)) = trace st @ new \<and>
          list_all (\<lambda>call. no_invoker (fst call)) new"
  proof (cases "length tools < 5")
    case True
    then show ?thesis by (simp add: autoTrimTools_few)
  next
    case False
    then show ?thesis
      using autoTrimTools_one_call [of tools rt ai model messages st] no_invoker_requests(3)
      by auto
  qed
qed

theorem no_invoker_offered_witness:
  "list_all (\<lambda>call. no_invoker (fst call))
     (trace (snd (runWithTools sample_runtime eager_ai ''sample-model''
                    \<lparr>in_messages = question, in_tools = [getUser]\<rparr> default_config
                    (start_state 0))))"
  using no_invoker_offered [of "\<lparr>in_messages = question, in_tools = [getUser]\<rparr>"
      sample_runtime eager_ai "''sample-model''" default_config "start_state 0"]
  by (auto simp: default_config_def default_trimFunction_def start_state_def)

section \<open>What one tool call does\<close>

lemma toolCall_start_not_found:
  assumes "find (\<lambda>tool. tool_name tool = call_name tc) tools = None"
  shows "toolCall_start rt tools strict tc ms st =
           (Returned, ms @ [request_turn rt tc],
            Logger_error (''Tool '' @ call_name tc @ '' not found, maybe AI hallucinated'') st)"
  using assms by (simp add: toolCall_start_def request_turn_def Let_def)

lemma toolCall_start_undefined:
  assumes "find (\<lambda>tool. tool_name tool = call_name tc) tools = Some t"
    and "tool_function t = None \<or> tool_parameters t = None"
  shows "toolCall_start rt tools strict tc ms st =
           (Returned, ms @ [request_turn rt tc],
            Logger_error (''Function for tool '' @ call_name tc @ '' is undefined'') st)"
  using assms by (auto simp: toolCall_start_def request_turn_def Let_def split: option.splits)

lemma toolCall_start_invalid:
  assumes "find (\<lambda>tool. tool_name tool = call_name tc) tools = Some t"
    and "tool_function t = Some fn" and "tool_parameters t = Some ps"
    and "validateArgsWithZod (zod_parse rt) (call_arguments tc) (prm_properties ps) = Inr False"
  shows "toolCall_start rt tools True tc ms st =
           (Returned, ms @ [request_turn rt tc],
            Logger_error (''Invalid arguments for tool '' @ tool_name t @ '': ''
                            @ JSON_stringify rt (call_arguments tc))
              (Logger_error ''Validation failed:'' st))"
  using assms by (simp add: toolCall_start_def request_turn_def Let_def)

lemma toolCall_start_unchecked:
  assumes "find (\<lambda>tool. tool_name tool = call_name tc) tools = Some t"
    and "tool_function t = Some fn" and "tool_parameters t = Some ps"
  shows "toolCall_start rt tools False tc ms st =
           (Awaiting (tool_name t) (fst (fn (call_arguments tc) (world st))),
            ms @ [request_turn rt tc],
            (Logger_info (''Executing tool '' @ tool_name t @ '' with arguments'') st)
              \<lparr>world := snd (fn (call_arguments tc) (world st))\<rparr>)"
  using assms
  by (simp add: toolCall_start_def request_turn_def execute_tool_def Let_def split: prod.splits)

lemma toolCall_start_valid:
  assumes "find (\<lambda>tool. tool_name tool = call_name tc) tools = Some t"
    and "tool_function t = Some fn" and "tool_parameters t = Some ps"
    and "validateArgsWithZod (zod_parse rt) (call_arguments tc) (prm_properties ps) = Inr True"
  shows "toolCall_start rt tools True tc ms st =
           (Awaiting (tool_name t) (fst (fn (call_arguments tc) (world st))),
            ms @ [request_turn rt tc],
            (Logger_info (''Executing tool '' @ tool_name t @ '' with arguments'')
               (Logger_info ''Validation passed'' st))
              \<lparr>world := snd (fn (call_arguments tc) (world st))\<rparr>)"
  using assms
  by (simp add: toolCall_start_def request_turn_def execute_tool_def Let_def split: prod.splits)

lemma toolCall_start_invokes:
  assumes "find (\<lambda>tool. tool_name tool = call_name tc) tools = Some t"
    and "tool_function t = Some fn" and "tool_parameters t = Some ps"
    and "strict \<longrightarrow>
           validateArgsWithZod (zod_parse rt) (call_arguments tc) (prm_properties ps) = Inr True"
  shows "fst (toolCall_start rt tools strict tc ms st) =
           Awaiting (tool_name t) (fst (fn (call_arguments tc) (world st)))"
proof (cases strict)
  case True
  then show ?thesis using toolCall_start_valid [OF assms(1-3)] assms(4) by simp
next
  case False
  then show ?thesis using toolCall_start_unchecked [OF assms(1-3)] by simp
qed

lemma toolCall_start_Awaiting:
  assumes "toolCall_start rt tools strict tc ms st = (Awaiting n p, ms1, st1)"
  shows "\<exists>t. find (\<lambda>tool. tool_name tool = call_name tc) tools = Some t \<and> n = tool_name t"
  using assms
  by (auto simp: toolCall_start_def execute_tool_def Let_def
           split: option.splits sum.splits if_splits prod.splits)

section \<open>From the callbacks to the turns of a round\<close>

lemma list_all2_set1: "list_all2 P xs ys \<Longrightarrow> x \<in> set xs \<Longrightarrow> \<exists>y \<in> set ys. P x y"
  by (induction rule: list_all2_induct) auto

lemma awaiting_iff: "(n, p) \<in> set (awaiting tks) \<longleftrightarrow> Awaiting n p \<in> set tks"
  by (induction tks rule: awaiting.induct) auto

lemma set_settle_order: "set (settle_order ps) = set ps"
  by (simp add: settle_order_def)

section \<open>The calls that follow a round\<close>

lemma run_extends_round:
  assumes "tool_round rt c ms st = (r, st3)"
  shows "\<exists>rest. trace (snd (runAndProcessToolCall rt c ms N st)) = trace st3 @ rest"
proof (cases r)
  case (Inl e)
  have "runAndProcessToolCall rt c ms N st = rethrow e st3"
    using assms Inl by (subst run_unfold) simp
  then show ?thesis by (simp add: rethrow_def)
next
  case (Inr p)
  obtain tcs ms2 where p: "p = (tcs, ms2)" by (cases p)
  show ?thesis
  proof (cases "N > 0 \<and> tcs \<noteq> []")
    case True
    obtain r5 st5 where b: "runAndProcessToolCall rt c ms2 (N - 1) st3 = (r5, st5)"
      by (cases "runAndProcessToolCall rt c ms2 (N - 1) st3")
    have "trace (snd (runAndProcessToolCall rt c ms N st)) = trace st5"
      using assms Inr p True b
      by (subst run_unfold) (simp add: rethrow_def split: sum.splits)
    then show ?thesis using run_trace_shape [of rt c ms2 "N - 1" st3] b by auto
  next
    case False
    obtain r4 st4 where b: "final_call c ms2 st3 = (r4, st4)" by (cases "final_call c ms2 st3")
    have "runAndProcessToolCall rt c ms N st = final_call c ms2 st3"
      using assms Inr p False by (subst run_unfold) auto
    then show ?thesis using b final_call_trace [OF b] by simp
  qed
qed

lemma run_first_call:
  "\<exists>rest. trace (snd (runAndProcessToolCall rt c ms N st)) =
            trace st @ (tools_request c ms, fst (c_ai c (tools_request c ms) (world st))) # rest"
proof -
  obtain r st3 where a: "tool_round rt c ms st = (r, st3)" by (cases "tool_round rt c ms st")
  from run_extends_round [OF a] tool_round_trace [OF a] show ?thesis by auto
qed

lemma run_second_call:
  assumes "tool_round rt c ms st = (Inr (tcs, ms2), st3)"
  shows "\<exists>req2 r2 rest. trace (snd (runAndProcessToolCall rt c ms N st)) =
            trace st @ (tools_request c ms, fst (c_ai c (tools_request c ms) (world st)))
              # (req2, r2) # rest \<and> req_messages req2 = ms2"
proof (cases "N > 0 \<and> tcs \<noteq> []")
  case True
  obtain r5 st5 where b: "runAndProcessToolCall rt c ms2 (N - 1) st3 = (r5, st5)"
    by (cases "runAndProcessToolCall rt c ms2 (N - 1) st3")
  have "trace (snd (runAndProcessToolCall rt c ms N st)) = trace st5"
    using assms True b
    by (subst run_unfold) (simp add: rethrow_def split: sum.splits)
  moreover obtain rest where "trace st5 = trace st3 @
      (tools_request c ms2, fst (c_ai c (tools_request c ms2) (world st3))) # rest"
    using run_first_call [of rt c ms2 "N - 1" st3] b by auto
  ultimately show ?thesis
    using tool_round_trace [OF assms] by (auto simp: tools_request_def)
next
  case False
  obtain r4 st4 where b: "final_call c ms2 st3 = (r4, st4)" by (cases "final_call c ms2 st3")
  have "runAndProcessToolCall rt c ms N st = final_call c ms2 st3"
    using assms False by (subst run_unfold) auto
  then show ?thesis
    using b final_call_trace [OF b] tool_round_trace [OF assms]
    by (auto simp: final_request_def)
qed



lemma find_absent:
  "call_name tc \<notin> tool_name ` set tools \<Longrightarrow>
   find (\<lambda>tool. tool_name tool = call_name tc) tools = None"
  by (induction tools) auto

lemma tool_round_of_response:
  assumes "c_ai c (tools_request c ms) (world st) = (Inr response, w1)"
    and "\<not> c_strictValidation c \<or> schemas_convert (c_input_tools c)"
  shows "\<exists>ms2 st3. tool_round rt c ms st = (Inr (requested_tool_calls response, ms2), st3)"
proof -
  obtain st1 where a1:
    "ai_run (c_ai c) (tools_request c ms) (Logger_info ''Starting AI.run call'' st) = (Inr response, st1)"
    using assms(1) by (simp add: ai_run_eq)
  obtain tks ms1 st2 where a2:
    "toolCallPromises rt (c_input_tools c) (c_strictValidation c) (requested_tool_calls response)
       ms (Logger_info ''AI.run call completed'' st1) = (tks, ms1, st2)"
    using prod_cases3 by blast
  from Promise_all_no_rejection [OF toolCallPromises_no_rejection [OF assms(2) a2]]
  obtain ms2 st3 where a3: "Promise_all rt tks ms1 st2 = (Inr ms2, st3)" by blast
  show ?thesis using a1 a2 a3 by (simp add: tool_round_def)
qed

lemma round_has_result_turn:
  assumes round: "tool_round rt c ms st = (Inr (tcs, ms2), st3)"
    and tc: "tc \<in> set tcs"
    and sel: "find (\<lambda>tool. tool_name tool = call_name tc) (c_input_tools c) = Some t"
    and fn: "tool_function t = Some fn" and ps: "tool_parameters t = Some ps"
    and valid: "c_strictValidation c \<longrightarrow>
           validateArgsWithZod (zod_parse rt) (call_arguments tc) (prm_properties ps) = Inr True"
    and outcome: "\<forall>w. settles (fst (fn (call_arguments tc) w)) = outcome"
  shows "\<exists>p. settles p = outcome \<and> result_turn rt (tool_name t, p) \<in> set ms2"
proof -
  from tool_round_Inr [OF round] obtain tks where
    tks: "list_all2 (\<lambda>tc tk. \<exists>ms' st'. tk = fst (toolCall_start rt (c_input_tools c)
                                   (c_strictValidation c) tc ms' (st' :: 'a run_state))) tcs tks"
    and ms2: "ms2 = ms @ map (request_turn rt) tcs @ map (result_turn rt) (settle_order (awaiting tks))"
    by blast
  from list_all2_set1 [OF tks tc] obtain tk ms' and st' :: "'a run_state" where
    tk: "tk \<in> set tks" "tk = fst (toolCall_start rt (c_input_tools c) (c_strictValidation c) tc ms' st')"
    by blast
  let ?p = "fst (fn (call_arguments tc) (world st'))"
  have "tk = Awaiting (tool_name t) ?p"
    using tk(2) toolCall_start_invokes [OF sel fn ps valid] by simp
  with tk(1) have "(tool_name t, ?p) \<in> set (settle_order (awaiting tks))"
    by (simp add: set_settle_order awaiting_iff)
  then have "result_turn rt (tool_name t, ?p) \<in> set ms2"
    using ms2 by auto
  with outcome show ?thesis by blast
qed

lemma round_turn_names:
  assumes round: "tool_round rt c ms st = (Inr (tcs, ms2), st3)"
    and m: "m \<in> set (drop (length ms) ms2)" and n: "msg_name m = Some n"
  shows "n \<in> tool_name ` set (c_input_tools c)"
proof -
  from tool_round_Inr [OF round] obtain tks where
    tks: "list_all2 (\<lambda>tc tk. \<exists>ms' st'. tk = fst (toolCall_start rt (c_input_tools c)
                                   (c_strictValidation c) tc ms' (st' :: 'a run_state))) tcs tks"
    and ms2: "ms2 = ms @ map (request_turn rt) tcs @ map (result_turn rt) (settle_order (awaiting tks))"
    by blast
  from m ms2 have "m \<in> request_turn rt ` set tcs \<or>
                   m \<in> result_turn rt ` set (settle_order (awaiting tks))"
    by auto
  then show ?thesis
  proof
    assume "m \<in> request_turn rt ` set tcs"
    with n show ?thesis by (auto simp: request_turn_def)
  next
    assume "m \<in> result_turn rt ` set (settle_order (awaiting tks))"
    then obtain n' p where np: "(n', p) \<in> set (awaiting tks)" "m = result_turn rt (n', p)"
      by (auto simp: set_settle_order)
    from np(2) n have n': "n' = n"
      by (auto simp: result_turn_def split: settled.splits)
    from np(1) have "Awaiting n' p \<in> set tks" by (simp add: awaiting_iff)
    from list_all2_set2 [OF tks this] obtain tc ms' and st' :: "'a run_state" where
      "Awaiting n' p = fst (toolCall_start rt (c_input_tools c) (c_strictValidation c) tc ms' st')"
      by blast
    then obtain ms1 st1 where
      "toolCall_start rt (c_input_tools c) (c_strictValidation c) tc ms' st' = (Awaiting n' p, ms1, st1)"
      by (cases "toolCall_start rt (c_input_tools c) (c_strictValidation c) tc ms' st'") simp
    from toolCall_start_Awaiting [OF this] obtain t where
      "find (\<lambda>tool. tool_name tool = call_name tc) (c_input_tools c) = Some t" "n' = tool_name t"
      by blast
    with find_in_set [of _ "c_input_tools c" t] n' show ?thesis by auto
  qed
qed

lemma round_has_request_turn:
  assumes "tool_round rt c ms st = (Inr (tcs, ms2), st3)" and "tc \<in> set tcs"
  shows "request_turn rt tc \<in> set ms2"
  using tool_round_Inr [OF assms(1)] assms(2) by auto


section \<open>Dispatch of a tool call\<close>

text \<open>
  C3, amended. Let a tool-call request select a descriptor, the first of the supplied ones
  with its name. When the descriptor has no invoker or no \<open>parameters\<close>, the call is a
  no-op: the request turn is appended, the skip is logged, no invoker runs. When it has
  both (and, under strict validation, the arguments pass), the invoker is called with the
  arguments of the request; and when it resolves, the tool-role turn with the serialized
  result and the name of the descriptor is among the messages of the next model call.
\<close>

theorem tool_call_dispatch:
  assumes sel: "find (\<lambda>tool. tool_name tool = call_name tc) (c_input_tools c) = Some t"
  shows "(tool_function t = None \<or> tool_parameters t = None \<longrightarrow>
            toolCall_start rt (c_input_tools c) (c_strictValidation c) tc ms' st' =
              (Returned, ms' @ [request_turn rt tc],
               Logger_error (''Function for tool '' @ call_name tc @ '' is undefined'') st')) \<and>
         (\<forall>fn ps.
            tool_function t = Some fn \<and> tool_parameters t = Some ps \<and>
            (c_strictValidation c \<longrightarrow>
               validateArgsWithZod (zod_parse rt) (call_arguments tc) (prm_properties ps)
                 = Inr True) \<longrightarrow>
            fst (toolCall_start rt (c_input_tools c) (c_strictValidation c) tc ms' st') =
              Awaiting (tool_name t) (fst (fn (call_arguments tc) (world st'))) \<and>
            (\<forall>result response w1.
               (\<forall>w. settles (fst (fn (call_arguments tc) w)) = Resolved result) \<and>
               c_ai c (tools_request c ms) (world st) = (Inr response, w1) \<and>
               tc \<in> set (requested_tool_calls response) \<and>
               (\<not> c_strictValidation c \<or> schemas_convert (c_input_tools c)) \<longrightarrow>
               (\<exists>req2 r2 rest.
                  trace (snd (runAndProcessToolCall rt c ms N st)) =
                    trace st @ (tools_request c ms, Inr response) # (req2, r2) # rest \<and>
                  \<lparr>msg_role = Tool, msg_content = JSON_stringify rt (JString result),
                   msg_name = Some (tool_name t)\<rparr> \<in> set (req_messages req2))))"
proof (intro conjI impI allI)
  assume "tool_function t = None \<or> tool_parameters t = None"
  then show "toolCall_start rt (c_input_tools c) (c_strictValidation c) tc ms' st' =
              (Returned, ms' @ [request_turn rt tc],
               Logger_error (''Function for tool '' @ call_name tc @ '' is undefined'') st')"
    by (rule toolCall_start_undefined [OF sel])
next
  fix fn ps
  assume a: "tool_function t = Some fn \<and> tool_parameters t = Some ps \<and>
            (c_strictValidation c \<longrightarrow>
               validateArgsWithZod (zod_parse rt) (call_arguments tc) (prm_properties ps)
                 = Inr True)"
  then have fn: "tool_function t = Some fn" and ps: "tool_parameters t = Some ps"
    and valid: "c_strictValidation c \<longrightarrow>
               validateArgsWithZod (zod_parse rt) (call_arguments tc) (prm_properties ps)
                 = Inr True"
    by simp_all
  show "fst (toolCall_start rt (c_input_tools c) (c_strictValidation c) tc ms' st') =
              Awaiting (tool_name t) (fst (fn (call_arguments tc) (world st')))"
    by (rule toolCall_start_invokes [OF sel fn ps valid])
  fix result response w1
  assume b: "(\<forall>w. settles (fst (fn (call_arguments tc) w)) = Resolved result) \<and>
               c_ai c (tools_request c ms) (world st) = (Inr response, w1) \<and>
               tc \<in> set (requested_tool_calls response) \<and>
               (\<not> c_strictValidation c \<or> schemas_convert (c_input_tools c))"
  then have tc: "tc \<in> set (requested_tool_calls response)"
    and resolves: "\<forall>w. settles (fst (fn (call_arguments tc) w)) = Resolved result"
    and first: "c_ai c (tools_request c ms) (world st) = (Inr response, w1)"
    and total: "\<not> c_strictValidation c \<or> schemas_convert (c_input_tools c)"
    by simp_all
  obtain ms2 st3 where round:
    "tool_round rt c ms st = (Inr (requested_tool_calls response, ms2), st3)"
    using tool_round_of_response [OF first total] by blast
  from round_has_result_turn [OF round tc sel fn ps valid resolves]
  have turn: "\<lparr>msg_role = Tool, msg_content = JSON_stringify rt (JString result),
                   msg_name = Some (tool_name t)\<rparr> \<in> set ms2"
    by (auto simp: result_turn_def)
  from run_second_call [OF round, of N] first turn
  show "\<exists>req2 r2 rest.
                  trace (snd (runAndProcessToolCall rt c ms N st)) =
                    trace st @ (tools_request c ms, Inr response) # (req2, r2) # rest \<and>
                  \<lparr>msg_role = Tool, msg_content = JSON_stringify rt (JString result),
                   msg_name = Some (tool_name t)\<rparr> \<in> set (req_messages req2)"
    by auto
qed

text \<open>
  The claim as stated, "a no-op only when the invoker is undefined", fails for a descriptor
  with an invoker and no \<open>parameters\<close>: \<open>ping\<close> is never invoked, no tool-role turn
  is appended, and the log says that its function is undefined.
\<close>

theorem tool_call_dispatch_counterexample:
  "tool_function (ping :: nat tool) \<noteq> None \<and>
   map (\<lambda>call. req_messages (fst call))
     (trace (snd (runAndProcessToolCall sample_runtime (asking_closure False [ping] ping_call)
                    question 0 (start_state 0))))
     = [question, question @ [request_turn sample_runtime ping_call]] \<and>
   logged (snd (runAndProcessToolCall sample_runtime (asking_closure False [ping] ping_call)
                    question 0 (start_state 0)))
     = [LogInfo ''Starting AI.run call'', LogInfo ''AI.run call completed'',
        LogError ''Function for tool ping is undefined'',
        LogInfo ''Max recursive tool runs reached, generating final response'']"
proof (intro conjI)
  show "tool_function (ping :: nat tool) \<noteq> None" by (simp add: ping_def)
  show "map (\<lambda>call. req_messages (fst call))
     (trace (snd (runAndProcessToolCall sample_runtime (asking_closure False [ping] ping_call)
                    question 0 (start_state 0))))
     = [question, question @ [request_turn sample_runtime ping_call]]"
    by code_simp
  show "logged (snd (runAndProcessToolCall sample_runtime (asking_closure False [ping] ping_call)
                    question 0 (start_state 0)))
     = [LogInfo ''Starting AI.run call'', LogInfo ''AI.run call completed'',
        LogError ''Function for tool ping is undefined'',
        LogInfo ''Max recursive tool runs reached, generating final response'']"
    by code_simp
qed

theorem tool_call_dispatch_witness:
  "(\<exists>req2 r2 rest.
      trace (snd (runAndProcessToolCall sample_runtime
                    (asking_closure False [getUser] getUser_call) question 0 (start_state 0))) =
        (tools_request (asking_closure False [getUser] getUser_call) question,
         Inr (AiOutput None (Some [Some getUser_call]))) # (req2, r2) # rest \<and>
      \<lparr>msg_role = Tool,
       msg_content = json_text (JString (''{'' @ quote ''name'' @ '':'' @ quote ''X'' @ ''}'')),
       msg_name = Some ''getUser''\<rparr> \<in> set (req_messages req2)) \<and>
   toolCall_start sample_runtime [ping] False ping_call question (start_state (0::nat)) =
     (Returned, question @ [request_turn sample_runtime ping_call],
      Logger_error ''Function for tool ping is undefined'' (start_state 0))"
proof -
  have a: "\<exists>req2 r2 rest.
      trace (snd (runAndProcessToolCall sample_runtime
                    (asking_closure False [getUser] getUser_call) question 0 (start_state 0))) =
        (tools_request (asking_closure False [getUser] getUser_call) question,
         Inr (AiOutput None (Some [Some getUser_call]))) # (req2, r2) # rest \<and>
      \<lparr>msg_role = Tool,
       msg_content = json_text (JString (''{'' @ quote ''name'' @ '':'' @ quote ''X'' @ ''}'')),
       msg_name = Some ''getUser''\<rparr> \<in> set (req_messages req2)"
    using tool_call_dispatch [of getUser_call "asking_closure False [getUser] getUser_call" getUser
      sample_runtime "[]" "start_state 0" question "start_state 0" 0]
    by (simp add: asking_closure_def asking_ai_def start_state_def requested_tool_calls_def
          getUser_def getUser_call_def sample_runtime_def)
  have b: "toolCall_start sample_runtime [ping] False ping_call question (start_state (0::nat)) =
     (Returned, question @ [request_turn sample_runtime ping_call],
      Logger_error ''Function for tool ping is undefined'' (start_state 0))"
    using tool_call_dispatch [of ping_call "asking_closure False [ping] ping_call" ping
      sample_runtime question "start_state 0" question "start_state 0" 0]
    by (simp add: asking_closure_def ping_def ping_call_def)
  from a b show ?thesis by blast
qed

section \<open>Strict validation\<close>

lemma tool_round_invalid_call:
  assumes first: "c_ai c (tools_request c ms) (world st) = (Inr response, w1)"
    and only: "requested_tool_calls response = [tc]"
    and strict: "c_strictValidation c"
    and sel: "find (\<lambda>tool. tool_name tool = call_name tc) (c_input_tools c) = Some t"
    and fn: "tool_function t = Some fn" and ps: "tool_parameters t = Some ps"
    and invalid: "validateArgsWithZod (zod_parse rt) (call_arguments tc) (prm_properties ps) = Inr False"
  shows "\<exists>st3. tool_round rt c ms st = (Inr ([tc], ms @ [request_turn rt tc]), st3) \<and> world st3 = w1"
  using first only strict toolCall_start_invalid [OF sel fn ps invalid]
  by (simp add: tool_round_def ai_run_eq Promise_all_def settle_order_def)

text \<open>
  C4. For a request that selects a descriptor with an invoker and parameters: under strict
  validation, arguments that fail validation make the callback return after the request
  turn, with the failure logged, the world untouched (no invoker ran) and nothing awaited
  or thrown, so a round with this single request hands the next model call the messages
  and the request turn only; without strict validation the invoker is called with the
  arguments as they are, whatever the validator would say.
\<close>

theorem strict_validation_gate:
  assumes sel: "find (\<lambda>tool. tool_name tool = call_name tc) (c_input_tools c) = Some t"
    and fn: "tool_function t = Some fn" and ps: "tool_parameters t = Some ps"
  shows "(validateArgsWithZod (zod_parse rt) (call_arguments tc) (prm_properties ps) = Inr False \<longrightarrow>
            toolCall_start rt (c_input_tools c) True tc ms' st' =
              (Returned, ms' @ [request_turn rt tc],
               Logger_error (''Invalid arguments for tool '' @ tool_name t @ '': ''
                               @ JSON_stringify rt (call_arguments tc))
                 (Logger_error ''Validation failed:'' st')) \<and>
            (\<forall>response w1.
               c_strictValidation c \<and>
               c_ai c (tools_request c ms) (world st) = (Inr response, w1) \<and>
               requested_tool_calls response = [tc] \<longrightarrow>
               (\<exists>req2 r2 rest.
                  trace (snd (runAndProcessToolCall rt c ms N st)) =
                    trace st @ (tools_request c ms, Inr response) # (req2, r2) # rest \<and>
                  req_messages req2 = ms @ [request_turn rt tc]))) \<and>
         toolCall_start rt (c_input_tools c) False tc ms' st' =
           (Awaiting (tool_name t) (fst (fn (call_arguments tc) (world st'))),
            ms' @ [request_turn rt tc],
            (Logger_info (''Executing tool '' @ tool_name t @ '' with arguments'') st')
              \<lparr>world := snd (fn (call_arguments tc) (world st'))\<rparr>)"
proof (intro conjI impI allI)
  assume invalid:
    "validateArgsWithZod (zod_parse rt) (call_arguments tc) (prm_properties ps) = Inr False"
  show "toolCall_start rt (c_input_tools c) True tc ms' st' =
              (Returned, ms' @ [request_turn rt tc],
               Logger_error (''Invalid arguments for tool '' @ tool_name t @ '': ''
                               @ JSON_stringify rt (call_arguments tc))
                 (Logger_error ''Validation failed:'' st'))"
    by (rule toolCall_start_invalid [OF sel fn ps invalid])
  fix response w1
  assume a: "c_strictValidation c \<and>
             c_ai c (tools_request c ms) (world st) = (Inr response, w1) \<and>
             requested_tool_calls response = [tc]"
  then have strict: "c_strictValidation c"
    and first: "c_ai c (tools_request c ms) (world st) = (Inr response, w1)"
    and only: "requested_tool_calls response = [tc]"
    by simp_all
  obtain st3 where round:
    "tool_round rt c ms st = (Inr ([tc], ms @ [request_turn rt tc]), st3)"
    using tool_round_invalid_call [OF first only strict sel fn ps invalid] by blast
  from run_second_call [OF round, of N] first
  show "\<exists>req2 r2 rest.
          trace (snd (runAndProcessToolCall rt c ms N st)) =
            trace st @ (tools_request c ms, Inr response) # (req2, r2) # rest \<and>
          req_messages req2 = ms @ [request_turn rt tc]"
    by auto
next
  show "toolCall_start rt (c_input_tools c) False tc ms' st' =
           (Awaiting (tool_name t) (fst (fn (call_arguments tc) (world st'))),
            ms' @ [request_turn rt tc],
            (Logger_info (''Executing tool '' @ tool_name t @ '' with arguments'') st')
              \<lparr>world := snd (fn (call_arguments tc) (world st'))\<rparr>)"
    by (rule toolCall_start_unchecked [OF sel fn ps])
qed

theorem strict_validation_gate_witness:
  "(\<exists>req2 r2 rest.
      trace (snd (runAndProcessToolCall sample_runtime
                    (asking_closure True [getProfile] getProfile_call) question 0 (start_state 0))) =
        (tools_request (asking_closure True [getProfile] getProfile_call) question,
         Inr (AiOutput None (Some [Some getProfile_call]))) # (req2, r2) # rest \<and>
      req_messages req2 = question @ [request_turn sample_runtime getProfile_call]) \<and>
   fst (toolCall_start sample_runtime [getProfile] False getProfile_call question (start_state (0::nat)))
     = Awaiting ''getProfile'' \<lparr>settle_after = 0, settles = Resolved ''a profile''\<rparr>"
proof -
  have invalid: "validateArgsWithZod (zod_parse sample_runtime) (call_arguments getProfile_call)
           [(''username'', Schema (Some ''string'') None None)] = Inr False"
    by (simp add: validateArgsWithZod_def sample_runtime_def getProfile_call_def property_def)
  show ?thesis
    using strict_validation_gate [of getProfile_call
      "asking_closure True [getProfile] getProfile_call" getProfile
      "\<lambda>args w. (\<lparr>settle_after = 0, settles = Resolved ''a profile''\<rparr>, w)"
      "\<lparr>prm_type = ''object'',
         prm_properties = [(''username'', Schema (Some ''string'') None None)],
         prm_required = [''username'']\<rparr>"
      sample_runtime question "start_state 0" question "start_state 0" 0] invalid
    by (simp add: asking_closure_def asking_ai_def start_state_def requested_tool_calls_def
          getProfile_def getProfile_call_def)
qed

section \<open>A failing invoker\<close>



section \<open>A tool that does not exist\<close>

text \<open>
  C6. A request that names no supplied descriptor is logged and skipped: its callback
  returns after the request turn. The messages of the next model call hold that request
  turn, and none of the turns appended in the round carries the requested name. The
  request raises nothing: when the model endpoint never throws, the run returns.
\<close>

theorem hallucinated_tool_name:
  assumes first: "c_ai c (tools_request c ms) (world st) = (Inr response, w1)"
    and tc: "tc \<in> set (requested_tool_calls response)"
    and absent: "call_name tc \<notin> tool_name ` set (c_input_tools c)"
    and total: "\<not> c_strictValidation c \<or> schemas_convert (c_input_tools c)"
  shows "toolCall_start rt (c_input_tools c) (c_strictValidation c) tc ms' st' =
           (Returned, ms' @ [request_turn rt tc],
            Logger_error (''Tool '' @ call_name tc @ '' not found, maybe AI hallucinated'') st') \<and>
         (\<exists>req2 r2 rest.
            trace (snd (runAndProcessToolCall rt c ms N st)) =
              trace st @ (tools_request c ms, Inr response) # (req2, r2) # rest \<and>
            request_turn rt tc \<in> set (req_messages req2) \<and>
            (\<forall>m \<in> set (drop (length ms) (req_messages req2)).
               msg_name m \<noteq> Some (call_name tc))) \<and>
         (never_throws (c_ai c) \<longrightarrow>
            (\<exists>out st2. runAndProcessToolCall rt c ms N st = (Inr out, st2)))"
proof (intro conjI)
  show "toolCall_start rt (c_input_tools c) (c_strictValidation c) tc ms' st' =
           (Returned, ms' @ [request_turn rt tc],
            Logger_error (''Tool '' @ call_name tc @ '' not found, maybe AI hallucinated'') st')"
    by (rule toolCall_start_not_found [OF find_absent [OF absent]])
next
  obtain ms2 st3 where round:
    "tool_round rt c ms st = (Inr (requested_tool_calls response, ms2), st3)"
    using tool_round_of_response [OF first total] by blast
  from run_second_call [OF round, of N] first obtain req2 r2 rest where
    tr: "trace (snd (runAndProcessToolCall rt c ms N st)) =
           trace st @ (tools_request c ms, Inr response) # (req2, r2) # rest"
    and req2: "req_messages req2 = ms2"
    by auto
  have "request_turn rt tc \<in> set ms2"
    by (rule round_has_request_turn [OF round tc])
  moreover have "msg_name m \<noteq> Some (call_name tc)" if "m \<in> set (drop (length ms) ms2)" for m
    using round_turn_names [OF round that] absent by auto
  ultimately show "\<exists>req2 r2 rest.
            trace (snd (runAndProcessToolCall rt c ms N st)) =
              trace st @ (tools_request c ms, Inr response) # (req2, r2) # rest \<and>
            request_turn rt tc \<in> set (req_messages req2) \<and>
            (\<forall>m \<in> set (drop (length ms) (req_messages req2)).
               msg_name m \<noteq> Some (call_name tc))"
    using tr req2 by blast
next
  show "never_throws (c_ai c) \<longrightarrow>
            (\<exists>out st2. runAndProcessToolCall rt c ms N st = (Inr out, st2))"
    using run_completes [OF _ total] by blast
qed

theorem hallucinated_tool_name_witness:
  "(\<exists>req2 r2 rest.
      trace (snd (runAndProcessToolCall sample_runtime
                    (asking_closure False [getUser] getWeather_call) question 0 (start_state 0))) =
        (tools_request (asking_closure False [getUser] getWeather_call) question,
         Inr (AiOutput None (Some [Some getWeather_call]))) # (req2, r2) # rest \<and>
      request_turn sample_runtime getWeather_call \<in> set (req_messages req2) \<and>
      (\<forall>m \<in> set (drop (length question) (req_messages req2)).
         msg_name m \<noteq> Some ''getWeather'')) \<and>
   (\<exists>out st2. runAndProcessToolCall sample_runtime
                  (asking_closure False [getUser] getWeather_call) question 0 (start_state 0)
                = (Inr out, st2))"
proof -
  have "never_throws (c_ai (asking_closure False [getUser] getWeather_call))"
    by (simp add: never_throws_def asking_closure_def asking_ai_def)
  then show ?thesis
    using hallucinated_tool_name [of "asking_closure False [getUser] getWeather_call" question
      "start_state 0" "AiOutput None (Some [Some getWeather_call])" 1 getWeather_call
      sample_runtime "[]" "start_state 0" 0]
    by (simp add: asking_closure_def asking_ai_def start_state_def requested_tool_calls_def
          getUser_def getWeather_call_def)
qed

end
